theory Spec2Isabelle
  imports Main "HOL-Library.Char_ord" "HOL-Library.List_Lexorder" "HOL-Library.Log_Nat"
begin

section \<open>Values exchanged with the JavaScript runtime\<close>

text \<open>
  A thrown value. \<open>Error msg\<close> is an instance of \<open>Error\<close> (TypeError, SyntaxError,
  DOMException, ...) carrying its message; \<open>NonError\<close> is any other thrown value, for which
  \<open>error instanceof Error\<close> is false.
\<close>

datatype js_error = Error string | NonError

text \<open>
  The interface \<open>Prompt\<close> of the types module. \<open>username\<close> is \<open>string | null\<close>;
  \<open>comment_count\<close> is declared optional, and is a \<open>number\<close> holding a whole count: an
  integer that a double can represent (see \<open>toDouble\<close> below for the arithmetic on it).
  The two timestamps are declared \<open>string\<close>, but the sort comparator tests them for
  truthiness first, so they are modelled as possibly absent as well.
\<close>

record prompt =
  prompt_id :: string
  title :: string
  content :: string
  username :: "string option"
  tags :: "string list"
  created_at :: "string option"
  updated_at :: "string option"
  comment_count :: "int option"

text \<open>
  What \<open>JSON.parse\<close> can return, as far as the code distinguishes it: \<open>null\<close>, a string,
  a number or boolean (\<open>JScalar\<close>), a plain object (its string-valued fields), or an array.
  Array elements are taken at the element type the code casts them to.
\<close>

datatype 'a js_value =
    JNull
  | JString string
  | JScalar
  | JObject "(string \<times> string) list"
  | JArray "'a list"

text \<open>
  The text held under a storage key or in a response body, up to what \<open>JSON.parse\<close> makes
  of it: the empty string, a non-empty text that \<open>JSON.parse\<close> rejects, or a text that
  parses to the given value (in particular the output of \<open>JSON.stringify\<close>).
\<close>

datatype 'a json_text = EmptyText | Malformed | Json "'a js_value"

definition JSON_parse :: "'a json_text \<Rightarrow> js_error + 'a js_value" where
  "JSON_parse t =
     (case t of
        EmptyText \<Rightarrow> Inl (Error ''SyntaxError: Unexpected end of JSON input'')
      | Malformed \<Rightarrow> Inl (Error ''SyntaxError: Unexpected token'')
      | Json v \<Rightarrow> Inr v)"

definition JSON_stringify :: "'a js_value \<Rightarrow> 'a json_text" where
  "JSON_stringify v = Json v"

text \<open>Truthiness of a string: only the empty string is falsy.\<close>

definition truthy :: "'a json_text \<Rightarrow> bool" where
  "truthy t = (t \<noteq> EmptyText)"

section \<open>The browser's localStorage, at the three keys the module uses\<close>

text \<open>
  \<open>promptVault\<close>, \<open>promptbase_prompt_codes\<close> and \<open>promptbase_comment_codes\<close> are the
  values of the constants \<open>VAULT_KEY\<close>, \<open>PROMPT_CODES_KEY\<close> and \<open>COMMENT_CODES_KEY\<close>;
  \<open>None\<close> is an absent key. When \<open>accessible\<close> is false every access to
  \<open>localStorage\<close> throws (storage disabled). \<open>accepts\<close> tells whether \<open>setItem\<close> of a
  vault text fits the quota; when it does not, \<open>setItem\<close> throws.
\<close>

record storage =
  accessible :: bool
  accepts :: "prompt json_text \<Rightarrow> bool"
  promptVault :: "prompt json_text option"
  promptbase_prompt_codes :: "(string \<times> string) json_text option"
  promptbase_comment_codes :: "(string \<times> string) json_text option"

definition getItem_VAULT_KEY :: "storage \<Rightarrow> js_error + prompt json_text option" where
  "getItem_VAULT_KEY st =
     (if accessible st then Inr (promptVault st) else Inl (Error ''SecurityError''))"

definition setItem_VAULT_KEY :: "storage \<Rightarrow> prompt json_text \<Rightarrow> js_error + storage" where
  "setItem_VAULT_KEY st t =
     (if \<not> accessible st then Inl (Error ''SecurityError'')
      else if \<not> accepts st t then Inl (Error ''QuotaExceededError'')
      else Inr (st\<lparr>promptVault := Some t\<rparr>))"

definition removeItem_VAULT_KEY :: "storage \<Rightarrow> js_error + storage" where
  "removeItem_VAULT_KEY st =
     (if accessible st then Inr (st\<lparr>promptVault := None\<rparr>) else Inl (Error ''SecurityError''))"

definition getItem_PROMPT_CODES_KEY ::
  "storage \<Rightarrow> js_error + (string \<times> string) json_text option" where
  "getItem_PROMPT_CODES_KEY st =
     (if accessible st then Inr (promptbase_prompt_codes st) else Inl (Error ''SecurityError''))"

definition getItem_COMMENT_CODES_KEY ::
  "storage \<Rightarrow> js_error + (string \<times> string) json_text option" where
  "getItem_COMMENT_CODES_KEY st =
     (if accessible st then Inr (promptbase_comment_codes st) else Inl (Error ''SecurityError''))"

section \<open>utils/localStorage.ts\<close>

text \<open>
  \<open>getVaultPrompts\<close>: the \<open>try\<close> block reads the key and, when the text is truthy, returns
  what \<open>JSON.parse\<close> gives, cast to \<open>Prompt[]\<close> without a check. Every exception ends in
  the \<open>catch\<close>, after which the empty array is returned.
\<close>

definition getVaultPrompts :: "storage \<Rightarrow> prompt js_value" where
  "getVaultPrompts st =
     (case getItem_VAULT_KEY st of
        Inl error \<Rightarrow> JArray []
      | Inr None \<Rightarrow> JArray []
      | Inr (Some storedValue) \<Rightarrow>
          if truthy storedValue
          then (case JSON_parse storedValue of Inl error \<Rightarrow> JArray [] | Inr v \<Rightarrow> v)
          else JArray [])"

text \<open>\<open>Array.prototype.findIndex\<close>: the first index whose element satisfies the predicate, or -1.\<close>

fun findIndex :: "('a \<Rightarrow> bool) \<Rightarrow> 'a list \<Rightarrow> int" where
  "findIndex P [] = - 1"
| "findIndex P (x # xs) =
     (if P x then 0 else (let i = findIndex P xs in if i < 0 then - 1 else i + 1))"

text \<open>
  \<open>savePromptToVault\<close>. On a value that is not an array the call of \<open>findIndex\<close> throws a
  TypeError inside the \<open>try\<close>; that and a throwing \<open>setItem\<close> end in the \<open>catch\<close>, which
  returns false.
\<close>

definition savePromptToVault :: "storage \<Rightarrow> prompt \<Rightarrow> storage \<times> bool" where
  "savePromptToVault st promptToSave =
     (case getVaultPrompts st of
        JArray currentVault \<Rightarrow>
          (let existingIndex =
                 findIndex (\<lambda>p. prompt_id p = prompt_id promptToSave) currentVault;
               currentVault' =
                 (if existingIndex > - 1
                  then currentVault[nat existingIndex := promptToSave]
                  else currentVault @ [promptToSave])
           in case setItem_VAULT_KEY st (JSON_stringify (JArray currentVault')) of
                Inl error \<Rightarrow> (st, False)
              | Inr st' \<Rightarrow> (st', True))
      | _ \<Rightarrow> (st, False))"

text \<open>
  The array that \<open>savePromptToVault\<close> hands to \<open>JSON.stringify\<close>: the current vault
  after the replacement at \<open>existingIndex\<close> or the \<open>push\<close>.
\<close>

definition upsertedVault :: "prompt list \<Rightarrow> prompt \<Rightarrow> prompt list" where
  "upsertedVault currentVault promptToSave =
     (let existingIndex =
            findIndex (\<lambda>p. prompt_id p = prompt_id promptToSave) currentVault
      in if existingIndex > - 1
         then currentVault[nat existingIndex := promptToSave]
         else currentVault @ [promptToSave])"

definition removePromptFromVault :: "storage \<Rightarrow> string \<Rightarrow> storage \<times> bool" where
  "removePromptFromVault st promptId =
     (case getVaultPrompts st of
        JArray currentVault \<Rightarrow>
          (let updatedVault = filter (\<lambda>p. prompt_id p \<noteq> promptId) currentVault
           in if length updatedVault < length currentVault
              then (case setItem_VAULT_KEY st (JSON_stringify (JArray updatedVault)) of
                      Inl error \<Rightarrow> (st, False)
                    | Inr st' \<Rightarrow> (st', True))
              else (st, False))
      | _ \<Rightarrow> (st, False))"

text \<open>
  \<open>isPromptInVault\<close> has no \<open>try\<close>: on a value that is not an array the call of \<open>some\<close>
  throws to the caller.
\<close>

definition isPromptInVault :: "storage \<Rightarrow> string \<Rightarrow> js_error + bool" where
  "isPromptInVault st promptId =
     (case getVaultPrompts st of
        JArray currentVault \<Rightarrow> Inr (list_ex (\<lambda>p. prompt_id p = promptId) currentVault)
      | _ \<Rightarrow> Inl (Error ''TypeError: currentVault.some is not a function''))"

text \<open>
  \<open>new Map(entries)\<close> restricted to string keys: entries are set in order, so a later
  entry with the same key overwrites an earlier one.
\<close>

definition newMap :: "(string \<times> 'v) list \<Rightarrow> (string \<rightharpoonup> 'v)" where
  "newMap entries = fold (\<lambda>(k, v) m. m(k \<mapsto> v)) entries Map.empty"

text \<open>
  The map built from a parsed codes text: \<open>new Map(null)\<close> and \<open>new Map('''')\<close> are
  empty; on every other value that is not an array of entries the constructor throws a
  TypeError, caught by the caller below, which then returns an empty map as well.
\<close>

definition newMap_parsed :: "(string \<times> string) js_value \<Rightarrow> js_error + (string \<rightharpoonup> string)" where
  "newMap_parsed v =
     (case v of
        JArray parsedArray \<Rightarrow> Inr (newMap parsedArray)
      | JNull \<Rightarrow> Inr Map.empty
      | JString s \<Rightarrow>
          if s = [] then Inr Map.empty
          else Inl (Error ''TypeError: Iterator value is not an entry object'')
      | _ \<Rightarrow> Inl (Error ''TypeError: object is not iterable''))"

definition getPromptCodes :: "storage \<Rightarrow> (string \<rightharpoonup> string)" where
  "getPromptCodes st =
     (case getItem_PROMPT_CODES_KEY st of
        Inl error \<Rightarrow> Map.empty
      | Inr None \<Rightarrow> Map.empty
      | Inr (Some storedCodes) \<Rightarrow>
          if truthy storedCodes
          then (case JSON_parse storedCodes of
                  Inl error \<Rightarrow> Map.empty
                | Inr v \<Rightarrow> (case newMap_parsed v of Inl error \<Rightarrow> Map.empty | Inr m \<Rightarrow> m))
          else Map.empty)"

definition getPromptCode :: "storage \<Rightarrow> string \<Rightarrow> string option" where
  "getPromptCode st promptId = getPromptCodes st promptId"

definition getCommentCodes :: "storage \<Rightarrow> (string \<rightharpoonup> string)" where
  "getCommentCodes st =
     (case getItem_COMMENT_CODES_KEY st of
        Inl error \<Rightarrow> Map.empty
      | Inr None \<Rightarrow> Map.empty
      | Inr (Some storedCodes) \<Rightarrow>
          if truthy storedCodes
          then (case JSON_parse storedCodes of
                  Inl error \<Rightarrow> Map.empty
                | Inr v \<Rightarrow> (case newMap_parsed v of Inl error \<Rightarrow> Map.empty | Inr m \<Rightarrow> m))
          else Map.empty)"

definition getCommentCode :: "storage \<Rightarrow> string \<Rightarrow> string option" where
  "getCommentCode st commentId = getCommentCodes st commentId"

text \<open>\<open>clearVault\<close>: \<open>removeItem\<close> inside a \<open>try\<close> whose \<open>catch\<close> only logs.\<close>

definition clearVault :: "storage \<Rightarrow> storage" where
  "clearVault st = (case removeItem_VAULT_KEY st of Inl error \<Rightarrow> st | Inr st' \<Rightarrow> st')"

section \<open>services/api.ts\<close>

text \<open>
  The batch request as \<open>fetch\<close> receives it (\<open>httpMethod\<close> is its \<open>method\<close>); \<open>body\<close> is the list \<open>ids\<close> of the JSON
  object sent. A response carries its status, its status text and the text of its body.
  The network is a function from the request to the response, or to the error \<open>fetch\<close>
  rejects with.
\<close>

record request =
  url :: string
  httpMethod :: string
  headers :: "(string \<times> string) list"
  body :: "string list"

record response =
  status :: nat
  statusText :: string
  payload :: "prompt json_text"

type_synonym network = "request \<Rightarrow> js_error + response"

definition ok :: "response \<Rightarrow> bool" where
  "ok r = (200 \<le> status r \<and> status r \<le> 299)"

definition response_json :: "response \<Rightarrow> js_error + prompt js_value" where
  "response_json r = JSON_parse (payload r)"

text \<open>\<open>errorData?.detail\<close>: a field of a plain object, undefined on every other value.\<close>

definition getProp :: "'a js_value \<Rightarrow> string \<Rightarrow> string option" where
  "getProp v k = (case v of JObject props \<Rightarrow> map_of (rev props) k | _ \<Rightarrow> None)"

text \<open>\<open>a || b\<close> on a possibly undefined string: the empty string is falsy.\<close>

definition js_or :: "string option \<Rightarrow> string \<Rightarrow> string" where
  "js_or a b = (case a of None \<Rightarrow> b | Some s \<Rightarrow> if s \<noteq> [] then s else b)"

text \<open>A status code inside a template literal: its decimal digits.\<close>

fun numberToString :: "nat \<Rightarrow> string" where
  "numberToString n =
     (if n < 10 then [char_of (48 + n)]
      else numberToString (n div 10) @ [char_of (48 + n mod 10)])"

declare numberToString.simps [simp del]

definition handleResponse :: "response \<Rightarrow> js_error + prompt js_value" where
  "handleResponse response =
     (if \<not> ok response
      then (let errorData =
                  (case response_json response of
                     Inl e \<Rightarrow> JObject [(''message'', statusText response),
                                        (''detail'', statusText response)]
                   | Inr v \<Rightarrow> v);
                errorMessage =
                  js_or (getProp errorData ''detail'')
                    (js_or (getProp errorData ''message'')
                       (''HTTP error! status: '' @ numberToString (status response)));
                errorMessage' =
                  (if status response = 429
                   then js_or (getProp errorData ''detail'')
                          ''You have made too many requests. Please try again later.''
                   else errorMessage)
            in Inl (Error errorMessage'))
      else if status response = 204 then Inr JNull
      else response_json response)"

text \<open>
  \<open>fetchPromptsBatch\<close>, returning the requests it issued together with its result.
  \<open>None\<close> is a null or undefined argument. The \<open>catch\<close> rethrows what it caught.
\<close>

definition fetchPromptsBatch ::
  "string \<Rightarrow> network \<Rightarrow> string list option \<Rightarrow> request list \<times> (js_error + prompt js_value)" where
  "fetchPromptsBatch API_BASE_URL fetch promptIds =
     (case promptIds of
        None \<Rightarrow> ([], Inr (JArray []))
      | Some ids \<Rightarrow>
          if length ids = 0 then ([], Inr (JArray []))
          else (let req = \<lparr>url = API_BASE_URL @ ''/prompts/batch/'', httpMethod = ''POST'',
                            headers = [(''Content-Type'', ''application/json'')],
                            body = ids\<rparr>
                in case fetch req of
                     Inl error \<Rightarrow> ([req], Inl error)
                   | Inr response \<Rightarrow> ([req], handleResponse response)))"

section \<open>pages/VaultPage\<close>

text \<open>The state of the page that the synchronisation and the comment handlers touch.\<close>

record vault_page =
  vaultPrompts :: "prompt list"
  isInitialLoading :: bool
  isBatchLoading :: bool
  batchError :: "string option"

text \<open>\<open>error instanceof Error ? error.message : fallback\<close>\<close>

definition errorMessageOr :: "js_error \<Rightarrow> string \<Rightarrow> string" where
  "errorMessageOr error fallback = (case error of Error message \<Rightarrow> message | NonError \<Rightarrow> fallback)"

text \<open>
  \<open>syncWithServer\<close>, with \<open>localPrompts\<close> the array read at the start of the effect. The
  \<open>try\<close> block awaits the batch and then calls \<open>freshPrompts.map\<close>, which throws a
  TypeError (its message depends on the engine) when the batch resolved to something that
  is not an array; both failures end in the \<open>catch\<close>, which only sets \<open>batchError\<close>. After \<open>setVaultPrompts\<close> the loop calls
  \<open>removePromptFromVault\<close> for each local prompt the batch did not return.
\<close>

definition syncWithServer ::
  "string \<Rightarrow> network \<Rightarrow> prompt list \<Rightarrow> vault_page \<times> storage \<Rightarrow> vault_page \<times> storage" where
  "syncWithServer API_BASE_URL fetch localPrompts ps =
     (let page = (fst ps)\<lparr>isBatchLoading := True, batchError := None\<rparr>;
          st = snd ps;
          promptIds = map prompt_id localPrompts;
          fetched =
            (case snd (fetchPromptsBatch API_BASE_URL fetch (Some promptIds)) of
               Inl error \<Rightarrow> Inl error
             | Inr (JArray freshPrompts) \<Rightarrow> Inr freshPrompts
             | Inr _ \<Rightarrow> Inl (Error ''TypeError: freshPrompts.map is not a function''))
      in case fetched of
           Inr freshPrompts \<Rightarrow>
             (let freshPromptsMap = newMap (map (\<lambda>p. (prompt_id p, p)) freshPrompts);
                  page' = page\<lparr>vaultPrompts :=
                    filter (\<lambda>p. freshPromptsMap (prompt_id p) \<noteq> None)
                      (map (\<lambda>localPrompt.
                              case freshPromptsMap (prompt_id localPrompt) of
                                Some freshPrompt \<Rightarrow> freshPrompt
                              | None \<Rightarrow> localPrompt)
                         localPrompts)\<rparr>;
                  freshIds = set (map prompt_id freshPrompts);
                  st' = fold (\<lambda>localPrompt s.
                                if prompt_id localPrompt \<notin> freshIds
                                then fst (removePromptFromVault s (prompt_id localPrompt))
                                else s)
                          localPrompts st
              in (page'\<lparr>isBatchLoading := False\<rparr>, st'))
         | Inl error \<Rightarrow>
             (page\<lparr>batchError := Some (errorMessageOr error ''Failed to sync vault with server.''),
                    isBatchLoading := False\<rparr>, st))"

text \<open>
  The effect that starts the synchronisation. \<open>Inl\<close> is an exception leaving the effect:
  \<open>localPrompts.length\<close> on \<open>null\<close>. When the stored value is a non-empty string the
  guard passes and \<open>localPrompts.map\<close> rejects the promise of \<open>syncWithServer\<close> after the
  first two state updates; nothing awaits that promise. A number, a boolean and a plain
  object have no \<open>length\<close> (an object with a field of that name is not modelled), so the
  guard fails on them.
\<close>

definition syncEffect ::
  "string \<Rightarrow> network \<Rightarrow> vault_page \<times> storage \<Rightarrow> js_error + (vault_page \<times> storage)" where
  "syncEffect API_BASE_URL fetch ps =
     (if isInitialLoading (fst ps) then Inr ps
      else (case getVaultPrompts (snd ps) of
              JArray localPrompts \<Rightarrow>
                if length localPrompts > 0
                then Inr (syncWithServer API_BASE_URL fetch localPrompts ps)
                else Inr ps
            | JNull \<Rightarrow> Inl (Error ''TypeError: Cannot read properties of null'')
            | JString s \<Rightarrow>
                if length s > 0
                then Inr ((fst ps)\<lparr>isBatchLoading := True, batchError := None\<rparr>, snd ps)
                else Inr ps
            | _ \<Rightarrow> Inr ps))"

text \<open>
  Arithmetic on a \<open>number\<close> that holds an integer. The exact result is rounded to the
  nearest double, ties to the even significand: integers up to \<open>2 ^ 53\<close> in magnitude
  are kept; beyond that the 53 leading bits are kept and the rest is rounded away, so that
  \<open>2 ^ 53 + 1\<close> becomes \<open>2 ^ 53\<close>. (Magnitudes of \<open>2 ^ 1024\<close> and more, which
  become infinite, are not modelled.)
\<close>

definition toDouble :: "int \<Rightarrow> int" where
  "toDouble n =
     (if \<bar>n\<bar> \<le> 2 ^ 53 then n
      else (let ulp = 2 ^ (nat (bitlen \<bar>n\<bar>) - 53);
                m = \<bar>n\<bar> div ulp;
                r = \<bar>n\<bar> mod ulp;
                up = (2 * r > ulp \<or> (2 * r = ulp \<and> odd m))
            in sgn n * (if up then (m + 1) * ulp else m * ulp)))"

text \<open>\<open>(p.comment_count || 0)\<close>\<close>

definition commentCountOr0 :: "prompt \<Rightarrow> int" where
  "commentCountOr0 p = (case comment_count p of None \<Rightarrow> 0 | Some n \<Rightarrow> n)"

text \<open>
  The comment handlers: the prompt is looked up in the page's list, the list is mapped,
  and the looked-up prompt with its new count is passed to \<open>savePromptToVault\<close>, whose
  result is discarded. The sum and the difference are those of doubles.
\<close>

definition handleCommentAdded :: "string \<Rightarrow> vault_page \<times> storage \<Rightarrow> vault_page \<times> storage" where
  "handleCommentAdded promptId ps =
     (let page = fst ps; st = snd ps;
          promptToUpdate = find (\<lambda>p. prompt_id p = promptId) (vaultPrompts page);
          page' = page\<lparr>vaultPrompts :=
            map (\<lambda>p. if prompt_id p = promptId
                      then p\<lparr>comment_count := Some (toDouble (commentCountOr0 p + 1))\<rparr>
                      else p)
              (vaultPrompts page)\<rparr>
      in case promptToUpdate of
           Some q \<Rightarrow>
             (page', fst (savePromptToVault st
                (q\<lparr>comment_count := Some (toDouble (commentCountOr0 q + 1))\<rparr>)))
         | None \<Rightarrow> (page', st))"

definition handleCommentDeleted :: "string \<Rightarrow> vault_page \<times> storage \<Rightarrow> vault_page \<times> storage" where
  "handleCommentDeleted promptId ps =
     (let page = fst ps; st = snd ps;
          promptToUpdate = find (\<lambda>p. prompt_id p = promptId) (vaultPrompts page);
          page' = page\<lparr>vaultPrompts :=
            map (\<lambda>p. if prompt_id p = promptId
                      then p\<lparr>comment_count := Some (max 0 (toDouble (commentCountOr0 p - 1)))\<rparr>
                      else p)
              (vaultPrompts page)\<rparr>
      in case promptToUpdate of
           Some q \<Rightarrow>
             (page', fst (savePromptToVault st
                (q\<lparr>comment_count := Some (max 0 (toDouble (commentCountOr0 q - 1)))\<rparr>)))
         | None \<Rightarrow> (page', st))"


definition js_minus :: "int option \<Rightarrow> int option \<Rightarrow> int option" where
  "js_minus x y = (case (x, y) of (Some a, Some b) \<Rightarrow> Some (a - b) | _ \<Rightarrow> None)"


section \<open>Sample data and environments\<close>

text \<open>A storage that accepts every write, and one whose quota is exhausted.\<close>

definition unlimitedQuota :: "prompt json_text \<Rightarrow> bool" where
  "unlimitedQuota t = True"

definition exhaustedQuota :: "prompt json_text \<Rightarrow> bool" where
  "exhaustedQuota t = False"

text \<open>A finite quota: room for a list of at most \<open>n\<close> prompts.\<close>

definition entryQuota :: "nat \<Rightarrow> prompt json_text \<Rightarrow> bool" where
  "entryQuota n t = (case t of Json (JArray xs) \<Rightarrow> length xs \<le> n | _ \<Rightarrow> True)"

definition promptA :: prompt where
  "promptA = \<lparr>prompt_id = ''A'', title = ''Fix bug'', content = ''Find the bug'',
     username = Some ''ann'', tags = [''urgent''],
     created_at = Some ''1970-01-01T00:00:01.000Z'', updated_at = Some ''1970-01-01T00:00:02.000Z'',
     comment_count = Some 3\<rparr>"

definition promptB :: prompt where
  "promptB = \<lparr>prompt_id = ''B'', title = ''Write docs'', content = ''Document it'',
     username = None, tags = [''low''],
     created_at = Some ''1970-01-01T00:00:02.000Z'', updated_at = Some ''1970-01-01T00:00:02.000Z'',
     comment_count = None\<rparr>"

definition promptC :: prompt where
  "promptC = \<lparr>prompt_id = ''C'', title = ''Cherry'', content = ''Pick'',
     username = Some ''cy'', tags = [],
     created_at = Some ''not a date'', updated_at = None,
     comment_count = Some 0\<rparr>"

definition storageOf :: "prompt json_text option \<Rightarrow> storage" where
  "storageOf v = \<lparr>accessible = True, accepts = unlimitedQuota, promptVault = v,
     promptbase_prompt_codes = Some (Json (JArray [(''A'', ''secret1'')])),
     promptbase_comment_codes = Some (Json (JArray [(''c1'', ''secret2'')]))\<rparr>"

text \<open>A date parser that knows two timestamps and rejects every other string.\<close>

definition sampleGetTime :: "string \<Rightarrow> int option" where
  "sampleGetTime =
     [''1970-01-01T00:00:01.000Z'' \<mapsto> 1000, ''1970-01-01T00:00:02.000Z'' \<mapsto> 2000]"


text \<open>A network that is down, and a batch endpoint over a table of prompts.\<close>

definition offline :: network where
  "offline req = Inl (Error ''Failed to fetch'')"

definition sampleServer :: "prompt list \<Rightarrow> network" where
  "sampleServer db req =
     Inr \<lparr>status = 200, statusText = ''OK'',
          payload = Json (JArray (filter (\<lambda>p. prompt_id p \<in> set (body req)) db))\<rparr>"

text \<open>A page after its initial load, and the server's newer version of the first prompt.\<close>

definition samplePage :: "prompt list \<Rightarrow> vault_page" where
  "samplePage xs = \<lparr>vaultPrompts = xs, isInitialLoading = False, isBatchLoading = False,
     batchError = None\<rparr>"

definition promptA' :: prompt where
  "promptA' = promptA\<lparr>title := ''Fix the bug'', comment_count := Some 5\<rparr>"

section \<open>Facts about the array primitives\<close>

lemma findIndex_range: "- 1 \<le> findIndex P xs \<and> findIndex P xs < int (length xs)"
  by (induction xs) (auto simp: Let_def)

lemma findIndex_none: "(findIndex P xs = - 1) = (\<forall>x\<in>set xs. \<not> P x)"
proof (induction xs)
  case Nil
  then show ?case by simp
next
  case (Cons x xs)
  from findIndex_range [of P xs] have "findIndex P xs < 0 \<longleftrightarrow> findIndex P xs = - 1"
    and "findIndex P xs + 1 \<noteq> - 1"
    by arith+
  with Cons show ?case by (auto simp: Let_def)
qed

lemma findIndex_neg_iff: "(findIndex P xs > - 1) = (\<exists>x\<in>set xs. P x)"
  using findIndex_range [of P xs] findIndex_none [of P xs] by auto

lemma findIndex_found:
  "findIndex P xs > - 1 \<Longrightarrow> nat (findIndex P xs) < length xs \<and> P (xs ! nat (findIndex P xs))"
proof (induction xs)
  case Nil
  then show ?case by simp
next
  case (Cons x xs)
  show ?case
  proof (cases "P x")
    case True
    then show ?thesis by simp
  next
    case False
    with Cons.prems have pos: "findIndex P xs > - 1"
      by (auto simp: Let_def split: if_splits)
    from Cons.IH [OF pos] pos False show ?thesis
      by (auto simp: Let_def nat_add_distrib)
  qed
qed

lemma filter_key_update:
  assumes "distinct (map f xs)" and "i < length xs" and "f (xs ! i) = f p"
  shows "filter (\<lambda>q. f q = f p) (xs[i := p]) = [p]"
  using assms
proof (induction xs arbitrary: i)
  case Nil
  then show ?case by simp
next
  case (Cons x xs)
  show ?case
  proof (cases i)
    case 0
    with Cons.prems have "f x = f p" and "f p \<notin> f ` set xs" by auto
    then have "filter (\<lambda>q. f q = f p) xs = []"
      by (metis (mono_tags, lifting) filter_False imageI)
    with 0 show ?thesis by simp
  next
    case (Suc j)
    with Cons.prems have j: "j < length xs" "f (xs ! j) = f p" "distinct (map f xs)" by auto
    then have "f p \<in> f ` set xs" by (metis imageI nth_mem)
    with Cons.prems have "f x \<noteq> f p" by auto
    with Suc Cons.IH [OF j(3) j(1) j(2)] show ?thesis by simp
  qed
qed

lemma map_key_update: "i < length xs \<Longrightarrow> f (xs ! i) = f p \<Longrightarrow> map f (xs[i := p]) = map f xs"
  by (simp add: map_update list_update_same_conv)

lemma filter_key_append:
  "\<forall>x\<in>set xs. f x \<noteq> f p \<Longrightarrow> filter (\<lambda>q. f q = f p) (xs @ [p]) = [p]"
  by (simp add: filter_empty_conv)

lemma findIndex_least:
  "findIndex P xs > - 1 \<Longrightarrow> j < nat (findIndex P xs) \<Longrightarrow> \<not> P (xs ! j)"
proof (induction xs arbitrary: j)
  case Nil
  then show ?case by simp
next
  case (Cons x xs)
  show ?case
  proof (cases "P x")
    case True
    with Cons.prems show ?thesis by simp
  next
    case False
    with Cons.prems have pos: "findIndex P xs > - 1"
      by (auto simp: Let_def split: if_splits)
    with False have k: "findIndex P (x # xs) = findIndex P xs + 1"
      by (simp add: Let_def)
    show ?thesis
    proof (cases j)
      case 0
      with False show ?thesis by simp
    next
      case (Suc j')
      with Cons.prems(2) k pos have "j' < nat (findIndex P xs)" by simp
      from Cons.IH [OF pos this] Suc show ?thesis by simp
    qed
  qed
qed

lemma findIndex_eq:
  "i < length xs \<Longrightarrow> P (xs ! i) \<Longrightarrow> (\<forall>j<i. \<not> P (xs ! j)) \<Longrightarrow> findIndex P xs = int i"
proof -
  assume i: "i < length xs" and p: "P (xs ! i)" and least: "\<forall>j<i. \<not> P (xs ! j)"
  from i p have ex: "\<exists>x\<in>set xs. P x"
    by (metis nth_mem)
  then have pos: "findIndex P xs > - 1"
    by (simp add: findIndex_neg_iff)
  let ?k = "nat (findIndex P xs)"
  from findIndex_found [OF pos] have k: "?k < length xs" "P (xs ! ?k)" by simp_all
  have "\<not> ?k < i"
    using least k(2) by blast
  moreover have "\<not> i < ?k"
    using findIndex_least [OF pos, of i] p by blast
  ultimately have "?k = i" by simp
  with pos show ?thesis by simp
qed

section \<open>Facts about the storage primitives\<close>

lemma getVaultPrompts_cases:
  "getVaultPrompts st =
     (if accessible st then (case promptVault st of Some (Json v) \<Rightarrow> v | _ \<Rightarrow> JArray [])
      else JArray [])"
  by (simp add: getVaultPrompts_def getItem_VAULT_KEY_def truthy_def JSON_parse_def
      split: option.splits json_text.splits)

lemma setItem_ok:
  "accessible st \<Longrightarrow> accepts st t \<Longrightarrow> setItem_VAULT_KEY st t = Inr (st\<lparr>promptVault := Some t\<rparr>)"
  by (simp add: setItem_VAULT_KEY_def)

lemma storageOf_simps [simp]:
  "accessible (storageOf v)" "accepts (storageOf v) t" "promptVault (storageOf v) = v"
  by (simp_all add: storageOf_def unlimitedQuota_def)

lemma key_absent:
  "f p \<notin> f ` set xs \<Longrightarrow> \<forall>x\<in>set xs. f x \<noteq> f p"
  by (metis imageI)

lemma upsertedVault_found:
  assumes "prompt_id P \<in> prompt_id ` set xs"
  shows "\<exists>i<length xs. prompt_id (xs ! i) = prompt_id P \<and>
           (\<forall>j<i. prompt_id (xs ! j) \<noteq> prompt_id P) \<and> upsertedVault xs P = xs[i := P]"
proof -
  let ?k = "findIndex (\<lambda>p. prompt_id p = prompt_id P) xs"
  from assms have pos: "?k > - 1"
    by (auto simp: findIndex_neg_iff)
  from findIndex_found [OF pos]
  have i: "nat ?k < length xs" "prompt_id (xs ! nat ?k) = prompt_id P" by simp_all
  have least: "\<forall>j<nat ?k. prompt_id (xs ! j) \<noteq> prompt_id P"
    using findIndex_least [OF pos] by blast
  have "upsertedVault xs P = xs[nat ?k := P]"
    using pos by (simp add: upsertedVault_def)
  with i least show ?thesis by blast
qed

lemma upsertedVault_absent:
  assumes "prompt_id P \<notin> prompt_id ` set xs"
  shows "upsertedVault xs P = xs @ [P]"
proof -
  from key_absent [OF assms]
  have "\<not> findIndex (\<lambda>p. prompt_id p = prompt_id P) xs > - 1"
    by (simp add: findIndex_neg_iff)
  then show ?thesis by (simp add: upsertedVault_def)
qed

lemma upsertedVault_ids:
  "prompt_id P \<in> prompt_id ` set xs \<Longrightarrow> map prompt_id (upsertedVault xs P) = map prompt_id xs"
  using upsertedVault_found [of P xs] by (auto simp: map_key_update)

lemma upsertedVault_distinct:
  assumes "distinct (map prompt_id xs)"
  shows "distinct (map prompt_id (upsertedVault xs P)) \<and>
         filter (\<lambda>q. prompt_id q = prompt_id P) (upsertedVault xs P) = [P]"
proof (cases "prompt_id P \<in> prompt_id ` set xs")
  case True
  from upsertedVault_found [OF True]
  obtain i where i: "i < length xs" "prompt_id (xs ! i) = prompt_id P"
    and u: "upsertedVault xs P = xs[i := P]"
    by blast
  have "filter (\<lambda>q. prompt_id q = prompt_id P) (xs[i := P]) = [P]"
    using assms i by (rule filter_key_update)
  moreover have "map prompt_id (xs[i := P]) = map prompt_id xs"
    using i by (rule map_key_update)
  ultimately show ?thesis
    using assms u by simp
next
  case False
  then have none: "\<forall>x\<in>set xs. prompt_id x \<noteq> prompt_id P"
    by (rule key_absent)
  then have "filter (\<lambda>q. prompt_id q = prompt_id P) (xs @ [P]) = [P]"
    by (rule filter_key_append)
  with False assms show ?thesis
    by (simp add: upsertedVault_absent)
qed

lemma upsertedVault_twice:
  assumes same: "prompt_id Q = prompt_id P"
  shows "upsertedVault (upsertedVault xs P) Q = upsertedVault xs Q"
proof (cases "prompt_id P \<in> prompt_id ` set xs")
  case True
  from upsertedVault_found [OF True]
  obtain i where i: "i < length xs" "prompt_id (xs ! i) = prompt_id P"
    and least: "\<forall>j<i. prompt_id (xs ! j) \<noteq> prompt_id P"
    and u: "upsertedVault xs P = xs[i := P]"
    by blast
  have k: "findIndex (\<lambda>p. prompt_id p = prompt_id Q) (xs[i := P]) = int i"
    using i least same by (intro findIndex_eq) simp_all
  have k': "findIndex (\<lambda>p. prompt_id p = prompt_id Q) xs = int i"
    using i least same by (intro findIndex_eq) simp_all
  show ?thesis
    by (simp add: u) (simp add: upsertedVault_def k k')
next
  case False
  then have u: "upsertedVault xs P = xs @ [P]"
    by (rule upsertedVault_absent)
  from key_absent [OF False]
  have none: "\<forall>j<length xs. prompt_id (xs ! j) \<noteq> prompt_id P"
    by simp
  have k: "findIndex (\<lambda>p. prompt_id p = prompt_id Q) (xs @ [P]) = int (length xs)"
    using none same by (intro findIndex_eq) (simp_all add: nth_append)
  from False same have "prompt_id Q \<notin> prompt_id ` set xs" by simp
  then have "upsertedVault xs Q = xs @ [Q]"
    by (rule upsertedVault_absent)
  then show ?thesis
    by (simp add: u) (simp add: upsertedVault_def k)
qed

lemma savePromptToVault_conv:
  "getVaultPrompts st = JArray xs \<Longrightarrow>
   savePromptToVault st P =
     (case setItem_VAULT_KEY st (Json (JArray (upsertedVault xs P))) of
        Inl error \<Rightarrow> (st, False)
      | Inr st' \<Rightarrow> (st', True))"
  by (simp add: savePromptToVault_def upsertedVault_def JSON_stringify_def Let_def)

lemma savePromptToVault_accepted:
  assumes "getVaultPrompts st = JArray xs" and "accessible st"
    and "accepts st (Json (JArray (upsertedVault xs P)))"
  shows "savePromptToVault st P =
           (st\<lparr>promptVault := Some (Json (JArray (upsertedVault xs P)))\<rparr>, True)"
    and "getVaultPrompts (fst (savePromptToVault st P)) = JArray (upsertedVault xs P)"
  using assms by (simp_all add: savePromptToVault_conv setItem_ok getVaultPrompts_cases)

lemma savePromptToVault_refused:
  assumes "getVaultPrompts st = JArray xs"
    and "\<not> accessible st \<or> \<not> accepts st (Json (JArray (upsertedVault xs P)))"
  shows "savePromptToVault st P = (st, False)"
  using assms by (auto simp: savePromptToVault_conv setItem_VAULT_KEY_def)

lemma savePromptToVault_unreadable:
  assumes "\<forall>ys. getVaultPrompts st \<noteq> JArray ys"
  shows "savePromptToVault st P = (st, False)"
  using assms by (cases "getVaultPrompts st") (simp_all add: savePromptToVault_def)

lemma sample_ids [simp]:
  "prompt_id promptA = ''A''" "prompt_id promptB = ''B''" "prompt_id promptC = ''C''"
  "prompt_id promptA' = ''A''"
  by (simp_all add: promptA_def promptB_def promptC_def promptA'_def)

lemma getVaultPrompts_degrades:
  "(\<not> accessible st \<longrightarrow> getVaultPrompts st = JArray []) \<and>
   (promptVault st = None \<longrightarrow> getVaultPrompts st = JArray []) \<and>
   (promptVault st = Some EmptyText \<longrightarrow> getVaultPrompts st = JArray []) \<and>
   (promptVault st = Some Malformed \<longrightarrow> getVaultPrompts st = JArray []) \<and>
   (accessible st \<and> promptVault st = Some (Json v) \<longrightarrow> getVaultPrompts st = v)"
  by (simp add: getVaultPrompts_cases)

section \<open>Facts about the batch fetch and the synchronisation\<close>

lemma syncEffect_runs:
  "\<not> isInitialLoading page \<Longrightarrow> getVaultPrompts st = JArray xs \<Longrightarrow> xs \<noteq> [] \<Longrightarrow>
   syncEffect base fetch (page, st) = Inr (syncWithServer base fetch xs (page, st))"
  by (simp add: syncEffect_def)

lemma fold_update_conv:
  "fold (\<lambda>(k, v) m. m(k \<mapsto> v)) es m = m ++ map_of (rev es)"
proof (induction es arbitrary: m)
  case Nil
  then show ?case by simp
next
  case (Cons e es)
  obtain k v where e: "e = (k, v)" by (cases e)
  have "fold (\<lambda>(k, v) m. m(k \<mapsto> v)) (e # es) m =
        fold (\<lambda>(k, v) m. m(k \<mapsto> v)) es (m(k \<mapsto> v))"
    by (simp add: e)
  also have "\<dots> = m(k \<mapsto> v) ++ map_of (rev es)"
    by (rule Cons.IH)
  also have "\<dots> = m ++ map_of (rev (e # es))"
    unfolding e by (rule ext) (simp add: map_add_def split: option.splits)
  finally show ?case .
qed

lemma newMap_conv: "newMap es = map_of (rev es)"
  by (simp add: newMap_def fold_update_conv)

lemma newMap_keyed_Some:
  "newMap (map (\<lambda>p. (f p, p)) xs) k = Some y \<Longrightarrow> y \<in> set xs \<and> f y = k"
  by (auto simp: newMap_conv dest!: map_of_SomeD)

lemma newMap_keyed_None:
  "(newMap (map (\<lambda>p. (f p, p)) xs) k = None) = (k \<notin> f ` set xs)"
  by (simp add: newMap_conv map_of_eq_None_iff image_image)

lemma merged_list:
  fixes M :: "string \<rightharpoonup> prompt"
  assumes M: "M = newMap (map (\<lambda>p. (prompt_id p, p)) fresh)"
  shows "list_all2 (\<lambda>p l. p \<in> set fresh \<and> prompt_id p = prompt_id l)
     (filter (\<lambda>p. M (prompt_id p) \<noteq> None)
        (map (\<lambda>l. case M (prompt_id l) of Some f \<Rightarrow> f | None \<Rightarrow> l) xs))
     (filter (\<lambda>l. prompt_id l \<in> prompt_id ` set fresh) xs)"
proof (induction xs)
  case Nil
  then show ?case by simp
next
  case (Cons x xs)
  show ?case
  proof (cases "M (prompt_id x)")
    case None
    then have "prompt_id x \<notin> prompt_id ` set fresh"
      using newMap_keyed_None [of prompt_id fresh "prompt_id x"] M by simp
    with None Cons.IH show ?thesis by simp
  next
    case (Some f)
    then have f: "f \<in> set fresh" "prompt_id f = prompt_id x"
      using newMap_keyed_Some [of prompt_id fresh "prompt_id x" f] M by simp_all
    then have "prompt_id x \<in> prompt_id ` set fresh" by (metis imageI)
    with Some f Cons.IH show ?thesis by simp
  qed
qed

lemma remove_step:
  assumes "accessible s" and "getVaultPrompts s = JArray ys"
    and "accepts s (Json (JArray (filter (\<lambda>p. prompt_id p \<noteq> k) ys)))"
  shows "accessible (fst (removePromptFromVault s k)) \<and>
         accepts (fst (removePromptFromVault s k)) = accepts s \<and>
         getVaultPrompts (fst (removePromptFromVault s k)) =
           JArray (filter (\<lambda>p. prompt_id p \<noteq> k) ys)"
proof (cases "length (filter (\<lambda>p. prompt_id p \<noteq> k) ys) < length ys")
  case True
  then have "removePromptFromVault s k =
      (s\<lparr>promptVault := Some (Json (JArray (filter (\<lambda>p. prompt_id p \<noteq> k) ys)))\<rparr>, True)"
    using assms by (simp add: removePromptFromVault_def JSON_stringify_def setItem_ok)
  then show ?thesis using assms by (simp add: getVaultPrompts_cases)
next
  case False
  then have same: "filter (\<lambda>p. prompt_id p \<noteq> k) ys = ys"
    by (metis (mono_tags, lifting) filter_id_conv length_filter_less)
  from False have "removePromptFromVault s k = (s, False)"
    using assms by (simp add: removePromptFromVault_def)
  then show ?thesis using assms same by simp
qed

lemma remove_loop:
  assumes quota: "\<forall>pre l post. xs = pre @ l # post \<and> prompt_id l \<notin> F \<longrightarrow>
      A (Json (JArray (filter (\<lambda>p. prompt_id p \<in> F \<or> prompt_id p \<notin> prompt_id ` set (pre @ [l])) xs)))"
    and split: "xs = ds @ zs"
    and s: "accessible s" "accepts s = A"
      "getVaultPrompts s = JArray (filter (\<lambda>p. prompt_id p \<in> F \<or> prompt_id p \<notin> prompt_id ` set ds) xs)"
  shows "getVaultPrompts
           (fold (\<lambda>l s. if prompt_id l \<notin> F then fst (removePromptFromVault s (prompt_id l)) else s)
              zs s) =
         JArray (filter (\<lambda>p. prompt_id p \<in> F \<or> prompt_id p \<notin> prompt_id ` set (ds @ zs)) xs)"
  using split s
proof (induction zs arbitrary: ds s)
  case Nil
  then show ?case by simp
next
  case (Cons z zs)
  let ?keep = "\<lambda>d. filter (\<lambda>p. prompt_id p \<in> F \<or> prompt_id p \<notin> prompt_id ` set d) xs"
  have split': "xs = (ds @ [z]) @ zs"
    using Cons.prems(1) by simp
  show ?case
  proof (cases "prompt_id z \<in> F")
    case True
    have "?keep (ds @ [z]) = ?keep ds"
      using True by (intro filter_cong) auto
    with Cons.prems have "getVaultPrompts s = JArray (?keep (ds @ [z]))"
      by simp
    from Cons.IH [OF split' Cons.prems(2,3) this] True show ?thesis
      by simp
  next
    case False
    let ?s = "fst (removePromptFromVault s (prompt_id z))"
    have step: "filter (\<lambda>p. prompt_id p \<noteq> prompt_id z) (?keep ds) = ?keep (ds @ [z])"
      using False by (simp, intro filter_cong) auto
    have "A (Json (JArray (?keep (ds @ [z]))))"
      using quota Cons.prems(1) False by blast
    then have "accepts s (Json (JArray (filter (\<lambda>p. prompt_id p \<noteq> prompt_id z) (?keep ds))))"
      using step Cons.prems(3) by simp
    from remove_step [OF Cons.prems(2) Cons.prems(4) this]
    have s': "accessible ?s" "accepts ?s = A" "getVaultPrompts ?s = JArray (?keep (ds @ [z]))"
      using step Cons.prems(3) by simp_all
    from Cons.IH [OF split' s'] False show ?thesis
      by simp
  qed
qed

lemma list_all2_ids:
  "list_all2 (\<lambda>p l. p \<in> S \<and> f p = f l) ps ls \<Longrightarrow> map f ps = map f ls"
  by (induction rule: list_all2_induct) simp_all

lemma nonempty_vault_accessible:
  "getVaultPrompts st = JArray xs \<Longrightarrow> xs \<noteq> [] \<Longrightarrow> accessible st"
  by (auto simp: getVaultPrompts_cases split: if_splits)

lemma syncWithServer_success:
  assumes got: "snd (fetchPromptsBatch base fetch (Some (map prompt_id xs))) = Inr (JArray fresh)"
  shows "\<exists>page' st'. syncWithServer base fetch xs (page, st) = (page', st') \<and>
      list_all2 (\<lambda>p l. p \<in> set fresh \<and> prompt_id p = prompt_id l) (vaultPrompts page')
        (filter (\<lambda>l. prompt_id l \<in> prompt_id ` set fresh) xs) \<and>
      batchError page' = None \<and> \<not> isBatchLoading page' \<and>
      (accessible st \<and> getVaultPrompts st = JArray xs \<and>
       (\<forall>pre l post. xs = pre @ l # post \<and> prompt_id l \<notin> prompt_id ` set fresh \<longrightarrow>
          accepts st (Json (JArray (filter (\<lambda>p. prompt_id p \<in> prompt_id ` set fresh \<or>
            prompt_id p \<notin> prompt_id ` set (pre @ [l])) xs)))) \<longrightarrow>
         getVaultPrompts st' = JArray (filter (\<lambda>l. prompt_id l \<in> prompt_id ` set fresh) xs))"
proof -
  let ?M = "newMap (map (\<lambda>p. (prompt_id p, p)) fresh)"
  let ?F = "prompt_id ` set fresh"
  let ?st' = "fold (\<lambda>l s. if prompt_id l \<notin> ?F then fst (removePromptFromVault s (prompt_id l)) else s) xs st"
  let ?vs = "filter (\<lambda>p. ?M (prompt_id p) \<noteq> None)
        (map (\<lambda>l. case ?M (prompt_id l) of Some f \<Rightarrow> f | None \<Rightarrow> l) xs)"
  have run: "syncWithServer base fetch xs (page, st) =
      (page\<lparr>isBatchLoading := True, batchError := None, vaultPrompts := ?vs, isBatchLoading := False\<rparr>, ?st')"
    by (simp add: syncWithServer_def got Let_def)
  have mem: "list_all2 (\<lambda>p l. p \<in> set fresh \<and> prompt_id p = prompt_id l) ?vs
        (filter (\<lambda>l. prompt_id l \<in> prompt_id ` set fresh) xs)"
    by (rule merged_list) simp
  have sto: "getVaultPrompts ?st' = JArray (filter (\<lambda>l. prompt_id l \<in> ?F) xs)"
    if h: "accessible st \<and> getVaultPrompts st = JArray xs \<and>
       (\<forall>pre l post. xs = pre @ l # post \<and> prompt_id l \<notin> ?F \<longrightarrow>
          accepts st (Json (JArray (filter (\<lambda>p. prompt_id p \<in> ?F \<or>
            prompt_id p \<notin> prompt_id ` set (pre @ [l])) xs))))"
  proof -
    have start: "getVaultPrompts st =
        JArray (filter (\<lambda>p. prompt_id p \<in> ?F \<or> prompt_id p \<notin> prompt_id ` set []) xs)"
      using h by simp
    have quota: "\<forall>pre l post. xs = pre @ l # post \<and> prompt_id l \<notin> ?F \<longrightarrow>
          accepts st (Json (JArray (filter (\<lambda>p. prompt_id p \<in> ?F \<or>
            prompt_id p \<notin> prompt_id ` set (pre @ [l])) xs)))"
      using h by blast
    have "getVaultPrompts ?st' =
        JArray (filter (\<lambda>p. prompt_id p \<in> ?F \<or> prompt_id p \<notin> prompt_id ` set ([] @ xs)) xs)"
      using quota _ _ _ start
    proof (rule remove_loop)
      show "xs = [] @ xs" by simp
      show "accessible st" using h by simp
      show "accepts st = accepts st" ..
    qed
    moreover have "filter (\<lambda>p. prompt_id p \<in> ?F \<or> prompt_id p \<notin> prompt_id ` set ([] @ xs)) xs =
        filter (\<lambda>l. prompt_id l \<in> ?F) xs"
      by (intro filter_cong) auto
    ultimately show ?thesis by simp
  qed
  show ?thesis
    using mem sto by (simp add: run)
qed

lemma sampleServer_batch:
  "ids \<noteq> [] \<Longrightarrow> snd (fetchPromptsBatch base (sampleServer db) (Some ids)) =
     Inr (JArray (filter (\<lambda>p. prompt_id p \<in> set ids) db))"
  by (simp add: fetchPromptsBatch_def sampleServer_def handleResponse_def ok_def
      response_json_def JSON_parse_def Let_def)

lemma offline_batch:
  "ids \<noteq> [] \<Longrightarrow> snd (fetchPromptsBatch base offline (Some ids)) = Inl (Error ''Failed to fetch'')"
  by (simp add: fetchPromptsBatch_def offline_def Let_def)

lemma samplePage_simps [simp]:
  "vaultPrompts (samplePage xs) = xs" "\<not> isInitialLoading (samplePage xs)"
  by (simp_all add: samplePage_def)

lemma storageOf_vault [simp]: "getVaultPrompts (storageOf (Some (Json v))) = v"
  by (simp add: getVaultPrompts_cases)

section \<open>Facts about the comment handlers\<close>

lemma toDouble_exact: "\<bar>n\<bar> \<le> 2 ^ 53 \<Longrightarrow> toDouble n = n"
  by (simp add: toDouble_def)

lemma toDouble_absorbed: "toDouble 9007199254740993 = 9007199254740992"
  by code_simp

lemma find_map_keyed:
  assumes "\<And>p. f (g p) = f p"
  shows "find (\<lambda>p. f p = k) (map g xs) = map_option g (find (\<lambda>p. f p = k) xs)"
  using assms by (induction xs) simp_all

lemma added_page:
  "vaultPrompts (fst (handleCommentAdded k (page, st))) =
     map (\<lambda>p. if prompt_id p = k
               then p\<lparr>comment_count := Some (toDouble (commentCountOr0 p + 1))\<rparr> else p)
       (vaultPrompts page)"
  by (simp add: handleCommentAdded_def Let_def split: option.splits)

lemma deleted_page:
  "vaultPrompts (fst (handleCommentDeleted k (page, st))) =
     map (\<lambda>p. if prompt_id p = k
               then p\<lparr>comment_count := Some (max 0 (toDouble (commentCountOr0 p - 1)))\<rparr>
               else p)
       (vaultPrompts page)"
  by (simp add: handleCommentDeleted_def Let_def split: option.splits)

lemma added_storage:
  "snd (handleCommentAdded k (page, st)) =
     (case find (\<lambda>p. prompt_id p = k) (vaultPrompts page) of
        Some q \<Rightarrow>
          fst (savePromptToVault st (q\<lparr>comment_count := Some (toDouble (commentCountOr0 q + 1))\<rparr>))
      | None \<Rightarrow> st)"
  by (simp add: handleCommentAdded_def Let_def split: option.splits)

lemma deleted_storage:
  "snd (handleCommentDeleted k (page, st)) =
     (case find (\<lambda>p. prompt_id p = k) (vaultPrompts page) of
        Some q \<Rightarrow>
          fst (savePromptToVault st
            (q\<lparr>comment_count := Some (max 0 (toDouble (commentCountOr0 q - 1)))\<rparr>))
      | None \<Rightarrow> st)"
  by (simp add: handleCommentDeleted_def Let_def split: option.splits)

lemma count_round_trip:
  assumes "0 \<le> c" and "c < 2 ^ 53"
  shows "toDouble (c + 1) = c + 1" and "max 0 (toDouble (toDouble (c + 1) - 1)) = c"
proof -
  show up: "toDouble (c + 1) = c + 1"
    using assms by (intro toDouble_exact) simp
  have "toDouble (c + 1 - 1) = c"
    using assms by (simp add: toDouble_exact)
  with up assms show "max 0 (toDouble (toDouble (c + 1) - 1)) = c"
    by simp
qed

lemma round_trip_page:
  assumes "\<forall>p\<in>set (vaultPrompts page).
      prompt_id p = k \<longrightarrow> 0 \<le> commentCountOr0 p \<and> commentCountOr0 p < 2 ^ 53"
  shows "vaultPrompts (fst (handleCommentDeleted k (handleCommentAdded k (page, st)))) =
     map (\<lambda>p. if prompt_id p = k then p\<lparr>comment_count := Some (commentCountOr0 p)\<rparr> else p)
       (vaultPrompts page)"
proof -
  obtain page1 st1 where ps1: "handleCommentAdded k (page, st) = (page1, st1)"
    by (cases "handleCommentAdded k (page, st)")
  have page1: "vaultPrompts page1 = map (\<lambda>p. if prompt_id p = k
      then p\<lparr>comment_count := Some (toDouble (commentCountOr0 p + 1))\<rparr> else p) (vaultPrompts page)"
    using added_page [of k page st] ps1 by simp
  have "map (\<lambda>p. if prompt_id p = k
          then p\<lparr>comment_count := Some (max 0 (toDouble (commentCountOr0 p - 1)))\<rparr> else p)
        (map (\<lambda>p. if prompt_id p = k
          then p\<lparr>comment_count := Some (toDouble (commentCountOr0 p + 1))\<rparr> else p)
          (vaultPrompts page)) =
      map (\<lambda>p. if prompt_id p = k then p\<lparr>comment_count := Some (commentCountOr0 p)\<rparr> else p)
        (vaultPrompts page)"
    unfolding map_map
  proof (rule map_cong [OF refl])
    fix p assume p: "p \<in> set (vaultPrompts page)"
    show "((\<lambda>p. if prompt_id p = k
          then p\<lparr>comment_count := Some (max 0 (toDouble (commentCountOr0 p - 1)))\<rparr> else p) \<circ>
        (\<lambda>p. if prompt_id p = k
          then p\<lparr>comment_count := Some (toDouble (commentCountOr0 p + 1))\<rparr> else p)) p =
       (if prompt_id p = k then p\<lparr>comment_count := Some (commentCountOr0 p)\<rparr> else p)"
    proof (cases "prompt_id p = k")
      case True
      with assms p have b: "0 \<le> commentCountOr0 p" "commentCountOr0 p < 2 ^ 53" by simp_all
      have "commentCountOr0 (p\<lparr>comment_count := Some (toDouble (commentCountOr0 p + 1))\<rparr>)
          = toDouble (commentCountOr0 p + 1)"
        by (simp add: commentCountOr0_def)
      with True count_round_trip(2) [OF b] show ?thesis by simp
    next
      case False
      then show ?thesis by simp
    qed
  qed
  then show ?thesis
    by (simp add: ps1 deleted_page page1)
qed

lemma counts_normalised:
  "map commentCountOr0
     (map (\<lambda>p. if prompt_id p = k then p\<lparr>comment_count := Some (commentCountOr0 p)\<rparr> else p) xs)
   = map commentCountOr0 xs"
  by (induction xs) (simp_all add: commentCountOr0_def)

lemma found_id: "find (\<lambda>p. prompt_id p = k) xs = Some q \<Longrightarrow> prompt_id q = k"
  by (auto simp: find_Some_iff)

lemma added_written:
  assumes "find (\<lambda>p. prompt_id p = k) (vaultPrompts page) = Some q"
    and "getVaultPrompts st = JArray ys" and "accessible st"
    and "accepts st (Json (JArray (upsertedVault ys
           (q\<lparr>comment_count := Some (toDouble (commentCountOr0 q + 1))\<rparr>))))"
  shows "snd (handleCommentAdded k (page, st)) =
           st\<lparr>promptVault := Some (Json (JArray (upsertedVault ys
             (q\<lparr>comment_count := Some (toDouble (commentCountOr0 q + 1))\<rparr>))))\<rparr>"
  using assms by (simp add: added_storage savePromptToVault_accepted(1))

lemma deleted_written:
  assumes "find (\<lambda>p. prompt_id p = k) (vaultPrompts page) = Some q"
    and "getVaultPrompts st = JArray ys" and "accessible st"
    and "accepts st (Json (JArray (upsertedVault ys
           (q\<lparr>comment_count := Some (max 0 (toDouble (commentCountOr0 q - 1)))\<rparr>))))"
  shows "snd (handleCommentDeleted k (page, st)) =
           st\<lparr>promptVault := Some (Json (JArray (upsertedVault ys
             (q\<lparr>comment_count := Some (max 0 (toDouble (commentCountOr0 q - 1)))\<rparr>))))\<rparr>"
  using assms by (simp add: deleted_storage savePromptToVault_accepted(1))

lemma added_refused:
  assumes "find (\<lambda>p. prompt_id p = k) (vaultPrompts page) = Some q"
    and "getVaultPrompts st = JArray ys"
    and "\<not> accepts st (Json (JArray (upsertedVault ys
           (q\<lparr>comment_count := Some (toDouble (commentCountOr0 q + 1))\<rparr>))))"
  shows "snd (handleCommentAdded k (page, st)) = st"
  using assms by (simp add: added_storage savePromptToVault_refused)

lemma deleted_refused:
  assumes "find (\<lambda>p. prompt_id p = k) (vaultPrompts page) = Some q"
    and "getVaultPrompts st = JArray ys"
    and "\<not> accepts st (Json (JArray (upsertedVault ys
           (q\<lparr>comment_count := Some (max 0 (toDouble (commentCountOr0 q - 1)))\<rparr>))))"
  shows "snd (handleCommentDeleted k (page, st)) = st"
  using assms by (simp add: deleted_storage savePromptToVault_refused)

lemma round_trip_written:
  assumes q: "find (\<lambda>p. prompt_id p = k) (vaultPrompts page) = Some q"
    and cur: "getVaultPrompts st = JArray ys" and acc: "accessible st"
    and b: "0 \<le> commentCountOr0 q" "commentCountOr0 q < 2 ^ 53"
    and a1: "accepts st (Json (JArray (upsertedVault ys
           (q\<lparr>comment_count := Some (toDouble (commentCountOr0 q + 1))\<rparr>))))"
    and a2: "accepts st (Json (JArray (upsertedVault ys
           (q\<lparr>comment_count := Some (commentCountOr0 q)\<rparr>))))"
  shows "getVaultPrompts (snd (handleCommentDeleted k (handleCommentAdded k (page, st)))) =
           JArray (upsertedVault ys (q\<lparr>comment_count := Some (commentCountOr0 q)\<rparr>))"
proof -
  let ?q1 = "q\<lparr>comment_count := Some (toDouble (commentCountOr0 q + 1))\<rparr>"
  let ?q0 = "q\<lparr>comment_count := Some (commentCountOr0 q)\<rparr>"
  let ?g = "\<lambda>p. if prompt_id p = k
      then p\<lparr>comment_count := Some (toDouble (commentCountOr0 p + 1))\<rparr> else p"
  let ?st1 = "st\<lparr>promptVault := Some (Json (JArray (upsertedVault ys ?q1)))\<rparr>"
  obtain page1 st1 where ps1: "handleCommentAdded k (page, st) = (page1, st1)"
    by (cases "handleCommentAdded k (page, st)")
  have qk: "prompt_id q = k"
    using q by (rule found_id)
  have st1: "st1 = ?st1"
    using added_written [OF q cur acc a1] ps1 by simp
  have page1: "vaultPrompts page1 = map ?g (vaultPrompts page)"
    using added_page [of k page st] ps1 by simp
  have "find (\<lambda>p. prompt_id p = k) (map ?g (vaultPrompts page)) =
        map_option ?g (find (\<lambda>p. prompt_id p = k) (vaultPrompts page))"
    by (rule find_map_keyed) simp
  then have found: "find (\<lambda>p. prompt_id p = k) (vaultPrompts page1) = Some ?q1"
    using q qk page1 by simp
  have c1: "commentCountOr0 ?q1 = toDouble (commentCountOr0 q + 1)"
    by (simp add: commentCountOr0_def)
  have undone: "?q1\<lparr>comment_count := Some (max 0 (toDouble (commentCountOr0 ?q1 - 1)))\<rparr> = ?q0"
    using count_round_trip(2) [OF b] by (simp add: c1)
  have cur1: "getVaultPrompts ?st1 = JArray (upsertedVault ys ?q1)"
    using acc by (simp add: getVaultPrompts_cases)
  have twice: "upsertedVault (upsertedVault ys ?q1) ?q0 = upsertedVault ys ?q0"
    by (rule upsertedVault_twice) simp
  have acc1: "accessible ?st1"
    using acc by simp
  have a2': "accepts ?st1 (Json (JArray (upsertedVault (upsertedVault ys ?q1)
      (?q1\<lparr>comment_count := Some (max 0 (toDouble (commentCountOr0 ?q1 - 1)))\<rparr>))))"
    using a2 by (simp only: undone twice) simp
  from deleted_written [OF found cur1 acc1 a2']
  have "snd (handleCommentDeleted k (page1, ?st1)) =
      ?st1\<lparr>promptVault := Some (Json (JArray (upsertedVault ys ?q0)))\<rparr>"
    by (simp only: undone twice)
  then have "getVaultPrompts (snd (handleCommentDeleted k (page1, ?st1))) =
      JArray (upsertedVault ys ?q0)"
    using acc by (simp add: getVaultPrompts_cases)
  then show ?thesis
    by (simp add: ps1 st1)
qed

lemma upserted_entry:
  assumes "distinct (map prompt_id ys)" and "prompt_id q = k"
  shows "filter (\<lambda>p. prompt_id p = k) (upsertedVault ys (q\<lparr>comment_count := Some n\<rparr>))
           = [q\<lparr>comment_count := Some n\<rparr>]"
  using upsertedVault_distinct [OF assms(1), of "q\<lparr>comment_count := Some n\<rparr>"] assms(2)
  by simp

lemma deleted_nonneg:
  "p \<in> set (vaultPrompts (fst (handleCommentDeleted k (page, st)))) \<Longrightarrow> prompt_id p = k \<Longrightarrow>
   \<exists>n. comment_count p = Some n \<and> 0 \<le> n"
proof -
  assume p: "p \<in> set (vaultPrompts (fst (handleCommentDeleted k (page, st))))" and k: "prompt_id p = k"
  from p obtain x where x: "x \<in> set (vaultPrompts page)"
    and px: "p = (if prompt_id x = k
       then x\<lparr>comment_count := Some (max 0 (toDouble (commentCountOr0 x - 1)))\<rparr> else x)"
    unfolding deleted_page set_map by (rule imageE)
  show ?thesis
  proof (cases "prompt_id x = k")
    case True
    with px show ?thesis by simp
  next
    case False
    with px k show ?thesis by simp
  qed
qed

lemma deleted_at_zero:
  "p \<in> set (vaultPrompts page) \<Longrightarrow> prompt_id p = k \<Longrightarrow> commentCountOr0 p = 0 \<Longrightarrow>
   p\<lparr>comment_count := Some 0\<rparr> \<in> set (vaultPrompts (fst (handleCommentDeleted k (page, st))))"
proof -
  assume p: "p \<in> set (vaultPrompts page)" and k: "prompt_id p = k" and z: "commentCountOr0 p = 0"
  let ?g = "\<lambda>p. if prompt_id p = k
       then p\<lparr>comment_count := Some (max 0 (toDouble (commentCountOr0 p - 1)))\<rparr> else p"
  have "?g p = p\<lparr>comment_count := Some 0\<rparr>"
    using k z by (simp add: toDouble_exact)
  moreover have "?g p \<in> set (map ?g (vaultPrompts page))"
    using p by (simp only: set_map) (rule imageI)
  ultimately show ?thesis
    by (simp only: deleted_page)
qed

section \<open>Facts about the sort comparator\<close>

lemma js_minus_simps [simp]:
  "js_minus (Some x) (Some y) = Some (x - y)"
  "js_minus None v = None" "js_minus u None = None"
  by (simp_all add: js_minus_def split: option.splits)


lemma sampleGetTime_simps [simp]:
  "sampleGetTime ''1970-01-01T00:00:01.000Z'' = Some 1000"
  "sampleGetTime ''1970-01-01T00:00:02.000Z'' = Some 2000"
  "sampleGetTime ''not a date'' = None"
  by (simp_all add: sampleGetTime_def)

section \<open>The local vault store\<close>

text \<open>
  Claim C2. \<open>savePromptToVault\<close> is an upsert in place, for every storage. With \<open>xs\<close>
  the vault list it reads, it writes the list \<open>upsertedVault xs P\<close> and returns true when
  the storage is accessible and accepts that text; it returns false and leaves the storage
  as it was when the storage is inaccessible or refuses that text, and also when the
  stored value is no list at all; no outcome is an exception. The list written is \<open>xs\<close>
  with the first entry of the prompt's id replaced at its index (same length, same ids at
  every position) if there is one, and \<open>xs\<close> with the prompt appended otherwise. When the
  ids of \<open>xs\<close> are pairwise distinct, so are those of the list written, and it holds
  exactly one entry with the prompt's id, equal to the prompt.
\<close>

theorem savePromptToVault_upsert:
  "(getVaultPrompts st = JArray xs \<and> accessible st \<and>
    accepts st (Json (JArray (upsertedVault xs P))) \<longrightarrow>
      savePromptToVault st P =
        (st\<lparr>promptVault := Some (Json (JArray (upsertedVault xs P)))\<rparr>, True) \<and>
      getVaultPrompts (fst (savePromptToVault st P)) = JArray (upsertedVault xs P)) \<and>
   (getVaultPrompts st = JArray xs \<and>
    (\<not> accessible st \<or> \<not> accepts st (Json (JArray (upsertedVault xs P)))) \<longrightarrow>
      savePromptToVault st P = (st, False)) \<and>
   ((\<forall>ys. getVaultPrompts st \<noteq> JArray ys) \<longrightarrow> savePromptToVault st P = (st, False)) \<and>
   (prompt_id P \<in> prompt_id ` set xs \<longrightarrow>
      (\<exists>i<length xs. prompt_id (xs ! i) = prompt_id P \<and>
         (\<forall>j<i. prompt_id (xs ! j) \<noteq> prompt_id P) \<and> upsertedVault xs P = xs[i := P]) \<and>
      length (upsertedVault xs P) = length xs \<and>
      map prompt_id (upsertedVault xs P) = map prompt_id xs) \<and>
   (prompt_id P \<notin> prompt_id ` set xs \<longrightarrow> upsertedVault xs P = xs @ [P]) \<and>
   (distinct (map prompt_id xs) \<longrightarrow>
      distinct (map prompt_id (upsertedVault xs P)) \<and>
      filter (\<lambda>q. prompt_id q = prompt_id P) (upsertedVault xs P) = [P])"
proof (intro conjI impI)
  assume h: "getVaultPrompts st = JArray xs \<and> accessible st \<and>
    accepts st (Json (JArray (upsertedVault xs P)))"
  then show "savePromptToVault st P =
        (st\<lparr>promptVault := Some (Json (JArray (upsertedVault xs P)))\<rparr>, True)"
    by (intro savePromptToVault_accepted) simp_all
  from h show "getVaultPrompts (fst (savePromptToVault st P)) = JArray (upsertedVault xs P)"
    by (intro savePromptToVault_accepted) simp_all
next
  assume "getVaultPrompts st = JArray xs \<and>
    (\<not> accessible st \<or> \<not> accepts st (Json (JArray (upsertedVault xs P))))"
  then show "savePromptToVault st P = (st, False)"
    using savePromptToVault_refused [of st xs P] by blast
next
  assume "\<forall>ys. getVaultPrompts st \<noteq> JArray ys"
  then show "savePromptToVault st P = (st, False)"
    by (rule savePromptToVault_unreadable)
next
  assume m: "prompt_id P \<in> prompt_id ` set xs"
  then show "\<exists>i<length xs. prompt_id (xs ! i) = prompt_id P \<and>
         (\<forall>j<i. prompt_id (xs ! j) \<noteq> prompt_id P) \<and> upsertedVault xs P = xs[i := P]"
    by (rule upsertedVault_found)
  from m have ids: "map prompt_id (upsertedVault xs P) = map prompt_id xs"
    by (rule upsertedVault_ids)
  then show "map prompt_id (upsertedVault xs P) = map prompt_id xs" .
  from ids show "length (upsertedVault xs P) = length xs"
    by (metis length_map)
next
  assume "prompt_id P \<notin> prompt_id ` set xs"
  then show "upsertedVault xs P = xs @ [P]"
    by (rule upsertedVault_absent)
next
  assume d: "distinct (map prompt_id xs)"
  from upsertedVault_distinct [OF d, of P]
  show "distinct (map prompt_id (upsertedVault xs P))"
    and "filter (\<lambda>q. prompt_id q = prompt_id P) (upsertedVault xs P) = [P]"
    by simp_all
qed

theorem savePromptToVault_upsert_witness:
  "savePromptToVault ((storageOf (Some (Json (JArray [promptA, promptB]))))\<lparr>accepts := entryQuota 2\<rparr>)
     promptA'
     = ((storageOf (Some (Json (JArray [promptA', promptB]))))\<lparr>accepts := entryQuota 2\<rparr>, True) \<and>
   savePromptToVault ((storageOf (Some (Json (JArray [promptA, promptB]))))\<lparr>accepts := entryQuota 2\<rparr>)
     promptC
     = ((storageOf (Some (Json (JArray [promptA, promptB]))))\<lparr>accepts := entryQuota 2\<rparr>, False) \<and>
   savePromptToVault (storageOf None) promptA = (storageOf (Some (Json (JArray [promptA]))), True)"
proof -
  let ?st = "(storageOf (Some (Json (JArray [promptA, promptB]))))\<lparr>accepts := entryQuota 2\<rparr>"
  have cur: "getVaultPrompts ?st = JArray [promptA, promptB]"
    by (simp add: getVaultPrompts_cases)
  have u1: "upsertedVault [promptA, promptB] promptA' = [promptA', promptB]"
    by (simp add: upsertedVault_def)
  have u2: "upsertedVault [promptA, promptB] promptC = [promptA, promptB, promptC]"
    by (simp add: upsertedVault_def)
  have u3: "upsertedVault [] promptA = [promptA]"
    by (simp add: upsertedVault_def)
  have h1: "getVaultPrompts ?st = JArray [promptA, promptB] \<and> accessible ?st \<and>
      accepts ?st (Json (JArray (upsertedVault [promptA, promptB] promptA')))"
    by (simp add: cur u1 entryQuota_def)
  have h2: "getVaultPrompts ?st = JArray [promptA, promptB] \<and>
      (\<not> accessible ?st \<or> \<not> accepts ?st (Json (JArray (upsertedVault [promptA, promptB] promptC))))"
    by (simp add: cur u2 entryQuota_def)
  have h3: "getVaultPrompts (storageOf None) = JArray [] \<and> accessible (storageOf None) \<and>
      accepts (storageOf None) (Json (JArray (upsertedVault [] promptA)))"
    by (simp add: getVaultPrompts_cases)
  from savePromptToVault_upsert [of ?st "[promptA, promptB]" promptA'] h1
    savePromptToVault_upsert [of ?st "[promptA, promptB]" promptC] h2
    savePromptToVault_upsert [of "storageOf None" "[]" promptA] h3
  show ?thesis
    by (simp add: u1 u2 u3 storageOf_def)
qed

text \<open>
  Claim C6. The claim says that an unreadable stored value reads as the empty list. The
  code at the failing input: with the text \<open>null\<close> stored under the vault key,
  \<open>getVaultPrompts\<close> returns \<open>null\<close>, which is not the empty list, and \<open>isPromptInVault\<close>,
  which has no \<open>try\<close>, then throws; with the same text under their keys the two readers
  of the code records give the empty map.
\<close>

theorem getVaultPrompts_null_returned:
  "getVaultPrompts (storageOf (Some (Json JNull))) = JNull \<and>
   getVaultPrompts (storageOf (Some (Json JNull))) \<noteq> JArray [] \<and>
   isl (isPromptInVault (storageOf (Some (Json JNull))) ''A'') \<and>
   getPromptCode ((storageOf None)\<lparr>promptbase_prompt_codes := Some (Json JNull)\<rparr>) ''A'' = None \<and>
   getCommentCode ((storageOf None)\<lparr>promptbase_comment_codes := Some (Json JNull)\<rparr>) ''c1'' = None"
  by (simp add: getVaultPrompts_cases isPromptInVault_def storageOf_def getPromptCode_def
      getPromptCodes_def getCommentCode_def getCommentCodes_def getItem_PROMPT_CODES_KEY_def
      getItem_COMMENT_CODES_KEY_def truthy_def JSON_parse_def newMap_parsed_def)

text \<open>
  Claim C7. \<open>removePromptFromVault\<close> returns true exactly when an entry with the id was in
  the vault before the call and none is afterwards. When no entry has the id, it returns
  false and the storage is unchanged. When it returns true, the stored list is the former
  list without the entries of that id.
\<close>

theorem removePromptFromVault_contract:
  "snd (removePromptFromVault st promptId) =
     (isPromptInVault st promptId = Inr True \<and>
      isPromptInVault (fst (removePromptFromVault st promptId)) promptId = Inr False) \<and>
   (isPromptInVault st promptId \<noteq> Inr True \<longrightarrow> removePromptFromVault st promptId = (st, False)) \<and>
   (getVaultPrompts st = JArray xs \<and> snd (removePromptFromVault st promptId) \<longrightarrow>
      getVaultPrompts (fst (removePromptFromVault st promptId)) =
        JArray (filter (\<lambda>p. prompt_id p \<noteq> promptId) xs))"
proof (cases "getVaultPrompts st")
  case (JArray ys)
  let ?zs = "filter (\<lambda>p. prompt_id p \<noteq> promptId) ys"
  have len: "(length ?zs < length ys) = (\<exists>p\<in>set ys. prompt_id p = promptId)"
    by (metis (mono_tags, lifting) filter_id_conv nat_less_le length_filter_less)
  have present: "(isPromptInVault st promptId = Inr True) = (\<exists>p\<in>set ys. prompt_id p = promptId)"
    by (simp add: isPromptInVault_def JArray list_ex_iff)
  show ?thesis
  proof (cases "(\<exists>p\<in>set ys. prompt_id p = promptId) \<and> accessible st
        \<and> accepts st (Json (JArray ?zs))")
    case True
    then have r: "removePromptFromVault st promptId = (st\<lparr>promptVault := Some (Json (JArray ?zs))\<rparr>, True)"
      using len by (simp add: removePromptFromVault_def JArray JSON_stringify_def setItem_ok)
    have after: "getVaultPrompts (st\<lparr>promptVault := Some (Json (JArray ?zs))\<rparr>) = JArray ?zs"
      using True by (simp add: getVaultPrompts_cases)
    show ?thesis
      using True present JArray after by (auto simp: r isPromptInVault_def list_ex_iff)
  next
    case False
    then have r: "removePromptFromVault st promptId = (st, False)"
      using len by (auto simp: removePromptFromVault_def JArray JSON_stringify_def
          setItem_VAULT_KEY_def)
    show ?thesis by (auto simp: r)
  qed
qed (simp_all add: removePromptFromVault_def isPromptInVault_def)

theorem removePromptFromVault_contract_witness:
  "removePromptFromVault (storageOf (Some (Json (JArray [promptA, promptB])))) ''C''
     = (storageOf (Some (Json (JArray [promptA, promptB]))), False) \<and>
   snd (removePromptFromVault (storageOf (Some (Json (JArray [promptA, promptB])))) ''B'')"
proof -
  let ?st = "storageOf (Some (Json (JArray [promptA, promptB])))"
  have absent: "isPromptInVault ?st ''C'' \<noteq> Inr True"
    by (simp add: isPromptInVault_def getVaultPrompts_cases promptA_def promptB_def)
  have present: "isPromptInVault ?st ''B'' = Inr True"
    by (simp add: isPromptInVault_def getVaultPrompts_cases promptA_def promptB_def)
  have gone: "isPromptInVault (fst (removePromptFromVault ?st ''B'')) ''B'' = Inr False"
    by (simp add: removePromptFromVault_def isPromptInVault_def getVaultPrompts_cases
        JSON_stringify_def setItem_ok promptA_def promptB_def)
  show ?thesis
    using removePromptFromVault_contract [of ?st "''C''" "[promptA, promptB]"]
      removePromptFromVault_contract [of ?st "''B''" "[promptA, promptB]"]
      absent present gone
    by simp
qed

text \<open>
  Claim C8. After \<open>clearVault\<close>, \<open>getVaultPrompts\<close> returns the empty list and
  \<open>isPromptInVault\<close> is false for every id. \<open>clearVault\<close> has no failing outcome: when
  the storage cannot be accessed the error is swallowed and the storage is left as it was.
\<close>

theorem clearVault_post_state:
  "getVaultPrompts (clearVault st) = JArray [] \<and>
   isPromptInVault (clearVault st) promptId = Inr False \<and>
   (\<not> accessible st \<longrightarrow> clearVault st = st)"
  by (simp add: clearVault_def removeItem_VAULT_KEY_def isPromptInVault_def getVaultPrompts_cases)

theorem clearVault_post_state_witness:
  "getVaultPrompts (clearVault (storageOf (Some (Json (JArray [promptA, promptB]))))) = JArray [] \<and>
   isPromptInVault (clearVault (storageOf (Some (Json (JArray [promptA, promptB]))))) ''A''
     = Inr False \<and>
   clearVault ((storageOf (Some (Json (JArray [promptA]))))\<lparr>accessible := False\<rparr>)
     = (storageOf (Some (Json (JArray [promptA]))))\<lparr>accessible := False\<rparr>"
  using clearVault_post_state [of "storageOf (Some (Json (JArray [promptA, promptB])))" "''A''"]
    clearVault_post_state [of "(storageOf (Some (Json (JArray [promptA]))))\<lparr>accessible := False\<rparr>"]
  by simp

text \<open>
  Claim C9. \<open>clearVault\<close> leaves the two code records as they were, so \<open>getPromptCodes\<close>,
  \<open>getCommentCodes\<close>, \<open>getPromptCode\<close> and \<open>getCommentCode\<close> give the same results before
  and after it.
\<close>

theorem clearVault_frame:
  "promptbase_prompt_codes (clearVault st) = promptbase_prompt_codes st \<and>
   promptbase_comment_codes (clearVault st) = promptbase_comment_codes st \<and>
   getPromptCodes (clearVault st) = getPromptCodes st \<and>
   getCommentCodes (clearVault st) = getCommentCodes st \<and>
   getPromptCode (clearVault st) promptId = getPromptCode st promptId \<and>
   getCommentCode (clearVault st) commentId = getCommentCode st commentId"
  by (simp add: clearVault_def removeItem_VAULT_KEY_def getPromptCodes_def getCommentCodes_def
      getPromptCode_def getCommentCode_def getItem_PROMPT_CODES_KEY_def
      getItem_COMMENT_CODES_KEY_def)

theorem clearVault_frame_witness:
  "getPromptCode (clearVault (storageOf (Some (Json (JArray [promptA]))))) ''A'' = Some ''secret1'' \<and>
   getCommentCode (clearVault (storageOf (Some (Json (JArray [promptA]))))) ''c1'' = Some ''secret2''"
proof -
  let ?st = "storageOf (Some (Json (JArray [promptA])))"
  have "getPromptCode ?st ''A'' = Some ''secret1''"
    by (simp add: getPromptCode_def getPromptCodes_def getItem_PROMPT_CODES_KEY_def truthy_def
        JSON_parse_def newMap_parsed_def newMap_def storageOf_def)
  moreover have "getCommentCode ?st ''c1'' = Some ''secret2''"
    by (simp add: getCommentCode_def getCommentCodes_def getItem_COMMENT_CODES_KEY_def truthy_def
        JSON_parse_def newMap_parsed_def newMap_def storageOf_def)
  ultimately show ?thesis
    using clearVault_frame [of ?st "''A''" "''c1''"] by simp
qed

section \<open>The batch fetch\<close>

text \<open>
  Claim C10. Called with a null or undefined argument or with an empty list of ids,
  \<open>fetchPromptsBatch\<close> resolves to the empty array and issues no request, whatever the
  network would answer; so it cannot fail there.
\<close>

theorem fetchPromptsBatch_empty:
  "fetchPromptsBatch API_BASE_URL fetch None = ([], Inr (JArray [])) \<and>
   fetchPromptsBatch API_BASE_URL fetch (Some []) = ([], Inr (JArray []))"
  by (simp add: fetchPromptsBatch_def)

theorem fetchPromptsBatch_empty_witness:
  "fetchPromptsBatch ''https://api.example'' offline None = ([], Inr (JArray [])) \<and>
   fetchPromptsBatch ''https://api.example'' offline (Some []) = ([], Inr (JArray [])) \<and>
   snd (fetchPromptsBatch ''https://api.example'' offline (Some [''A''])) = Inl (Error ''Failed to fetch'')"
  using fetchPromptsBatch_empty [of "''https://api.example''" offline]
  by (simp add: fetchPromptsBatch_def offline_def)

section \<open>The vault synchroniser\<close>

text \<open>
  Claim C1, as amended. Let the initial load be over, the stored vault be a non-empty list
  \<open>xs\<close>, and the batch fetch for the stored ids resolve to a list. Then the synchronisation
  ends normally; the page's list consists, in the local order, of one server-returned
  prompt for each local entry whose id the server returned, carrying that id, so its ids
  are exactly the local ids the server returned; no error is set. The storage is only
  cleaned: when it accepts each reduced list the loop writes (for every entry \<open>l\<close> of
  \<open>xs\<close> that was not returned, \<open>xs\<close> without the ids not returned up to and including
  \<open>l\<close>), the stored list afterwards is \<open>xs\<close> without the entries whose ids were not
  returned, each remaining entry with its local field values.
\<close>

theorem sync_success_reconciles:
  "\<not> isInitialLoading page \<and> getVaultPrompts st = JArray xs \<and> xs \<noteq> [] \<and>
   snd (fetchPromptsBatch API_BASE_URL fetch (Some (map prompt_id xs))) = Inr (JArray fresh) \<longrightarrow>
   (\<exists>page' st'. syncEffect API_BASE_URL fetch (page, st) = Inr (page', st') \<and>
      list_all2 (\<lambda>p l. p \<in> set fresh \<and> prompt_id p = prompt_id l) (vaultPrompts page')
        (filter (\<lambda>l. prompt_id l \<in> prompt_id ` set fresh) xs) \<and>
      map prompt_id (vaultPrompts page') =
        filter (\<lambda>i. i \<in> prompt_id ` set fresh) (map prompt_id xs) \<and>
      batchError page' = None \<and> \<not> isBatchLoading page' \<and>
      ((\<forall>pre l post. xs = pre @ l # post \<and> prompt_id l \<notin> prompt_id ` set fresh \<longrightarrow>
          accepts st (Json (JArray (filter (\<lambda>p. prompt_id p \<in> prompt_id ` set fresh \<or>
            prompt_id p \<notin> prompt_id ` set (pre @ [l])) xs)))) \<longrightarrow>
         getVaultPrompts st' = JArray (filter (\<lambda>l. prompt_id l \<in> prompt_id ` set fresh) xs)))"
proof (intro impI, elim conjE)
  assume h: "\<not> isInitialLoading page" "getVaultPrompts st = JArray xs" "xs \<noteq> []"
    "snd (fetchPromptsBatch API_BASE_URL fetch (Some (map prompt_id xs))) = Inr (JArray fresh)"
  have acc: "accessible st"
    using h(2,3) by (rule nonempty_vault_accessible)
  from syncWithServer_success [OF h(4), of page st]
  obtain page' st' where r: "syncWithServer API_BASE_URL fetch xs (page, st) = (page', st')"
    and m: "list_all2 (\<lambda>p l. p \<in> set fresh \<and> prompt_id p = prompt_id l) (vaultPrompts page')
        (filter (\<lambda>l. prompt_id l \<in> prompt_id ` set fresh) xs)"
    and rest: "batchError page' = None" "\<not> isBatchLoading page'"
    and sto: "accessible st \<and> getVaultPrompts st = JArray xs \<and>
       (\<forall>pre l post. xs = pre @ l # post \<and> prompt_id l \<notin> prompt_id ` set fresh \<longrightarrow>
          accepts st (Json (JArray (filter (\<lambda>p. prompt_id p \<in> prompt_id ` set fresh \<or>
            prompt_id p \<notin> prompt_id ` set (pre @ [l])) xs)))) \<longrightarrow>
         getVaultPrompts st' = JArray (filter (\<lambda>l. prompt_id l \<in> prompt_id ` set fresh) xs)"
    by blast
  have ids: "map prompt_id (vaultPrompts page') =
        filter (\<lambda>i. i \<in> prompt_id ` set fresh) (map prompt_id xs)"
    using list_all2_ids [OF m] by (simp add: filter_map comp_def)
  have run: "syncEffect API_BASE_URL fetch (page, st) = Inr (page', st')"
    using h(1,2,3) r by (simp add: syncEffect_runs)
  have sto': "(\<forall>pre l post. xs = pre @ l # post \<and> prompt_id l \<notin> prompt_id ` set fresh \<longrightarrow>
          accepts st (Json (JArray (filter (\<lambda>p. prompt_id p \<in> prompt_id ` set fresh \<or>
            prompt_id p \<notin> prompt_id ` set (pre @ [l])) xs)))) \<longrightarrow>
      getVaultPrompts st' = JArray (filter (\<lambda>l. prompt_id l \<in> prompt_id ` set fresh) xs)"
    using sto acc h(2) by blast
  from run m ids rest sto'
  show "\<exists>page' st'. syncEffect API_BASE_URL fetch (page, st) = Inr (page', st') \<and>
      list_all2 (\<lambda>p l. p \<in> set fresh \<and> prompt_id p = prompt_id l) (vaultPrompts page')
        (filter (\<lambda>l. prompt_id l \<in> prompt_id ` set fresh) xs) \<and>
      map prompt_id (vaultPrompts page') =
        filter (\<lambda>i. i \<in> prompt_id ` set fresh) (map prompt_id xs) \<and>
      batchError page' = None \<and> \<not> isBatchLoading page' \<and>
      ((\<forall>pre l post. xs = pre @ l # post \<and> prompt_id l \<notin> prompt_id ` set fresh \<longrightarrow>
          accepts st (Json (JArray (filter (\<lambda>p. prompt_id p \<in> prompt_id ` set fresh \<or>
            prompt_id p \<notin> prompt_id ` set (pre @ [l])) xs)))) \<longrightarrow>
         getVaultPrompts st' = JArray (filter (\<lambda>l. prompt_id l \<in> prompt_id ` set fresh) xs))"
    by blast
qed

theorem sync_success_reconciles_witness:
  "\<exists>page' st'.
     syncEffect ''https://api.example'' (sampleServer [promptA', promptC])
       (samplePage [promptA, promptB, promptC],
        (storageOf (Some (Json (JArray [promptA, promptB, promptC]))))\<lparr>accepts := entryQuota 3\<rparr>)
       = Inr (page', st') \<and>
     vaultPrompts page' = [promptA', promptC] \<and>
     getVaultPrompts st' = JArray [promptA, promptC]"
proof -
  let ?xs = "[promptA, promptB, promptC]"
  let ?st = "(storageOf (Some (Json (JArray ?xs))))\<lparr>accepts := entryQuota 3\<rparr>"
  have cur: "getVaultPrompts ?st = JArray ?xs"
    by (simp add: getVaultPrompts_cases)
  have q: "\<forall>pre l post. ?xs = pre @ l # post \<and> prompt_id l \<notin> prompt_id ` set [promptA', promptC] \<longrightarrow>
      accepts ?st (Json (JArray (filter (\<lambda>p. prompt_id p \<in> prompt_id ` set [promptA', promptC] \<or>
        prompt_id p \<notin> prompt_id ` set (pre @ [l])) ?xs)))"
  proof (intro allI impI)
    fix pre l post
    have "length (filter (\<lambda>p. prompt_id p \<in> prompt_id ` set [promptA', promptC] \<or>
        prompt_id p \<notin> prompt_id ` set (pre @ [l])) ?xs) \<le> length ?xs"
      by (rule length_filter_le)
    then show "accepts ?st (Json (JArray (filter (\<lambda>p. prompt_id p \<in> prompt_id ` set [promptA', promptC] \<or>
        prompt_id p \<notin> prompt_id ` set (pre @ [l])) ?xs)))"
      by (simp add: entryQuota_def)
  qed
  have h: "\<not> isInitialLoading (samplePage ?xs) \<and> getVaultPrompts ?st = JArray ?xs \<and> ?xs \<noteq> [] \<and>
      snd (fetchPromptsBatch ''https://api.example'' (sampleServer [promptA', promptC])
        (Some (map prompt_id ?xs))) = Inr (JArray [promptA', promptC])"
    by (simp add: cur sampleServer_batch)
  from sync_success_reconciles [of "samplePage ?xs" ?st ?xs "''https://api.example''"
      "sampleServer [promptA', promptC]" "[promptA', promptC]"] h
  obtain page' st' where r: "syncEffect ''https://api.example'' (sampleServer [promptA', promptC])
       (samplePage ?xs, ?st) = Inr (page', st')"
    and m: "list_all2 (\<lambda>p l. p \<in> set [promptA', promptC] \<and> prompt_id p = prompt_id l)
        (vaultPrompts page')
        (filter (\<lambda>l. prompt_id l \<in> prompt_id ` set [promptA', promptC]) ?xs)"
    and s: "(\<forall>pre l post. ?xs = pre @ l # post \<and> prompt_id l \<notin> prompt_id ` set [promptA', promptC] \<longrightarrow>
      accepts ?st (Json (JArray (filter (\<lambda>p. prompt_id p \<in> prompt_id ` set [promptA', promptC] \<or>
        prompt_id p \<notin> prompt_id ` set (pre @ [l])) ?xs)))) \<longrightarrow>
      getVaultPrompts st' =
        JArray (filter (\<lambda>l. prompt_id l \<in> prompt_id ` set [promptA', promptC]) ?xs)"
    by blast
  from m have "vaultPrompts page' = [promptA', promptC]"
    by (auto simp: list_all2_Cons2)
  moreover from s q have "getVaultPrompts st' =
      JArray (filter (\<lambda>l. prompt_id l \<in> prompt_id ` set [promptA', promptC]) ?xs)"
    by (rule mp)
  then have "getVaultPrompts st' = JArray [promptA, promptC]"
    by simp
  ultimately show ?thesis using r by blast
qed

text \<open>
  The claim as first stated has every entry of the vault replaced by the server's values.
  In the storage they are not: after a synchronisation in which the server returned a
  newer version of the first prompt, the page holds the server's version and the storage
  still holds the local one.
\<close>

theorem sync_stored_values_counterexample:
  "syncEffect ''https://api.example'' (sampleServer [promptA', promptC])
     (samplePage [promptA, promptB, promptC],
      storageOf (Some (Json (JArray [promptA, promptB, promptC]))))
     = Inr (samplePage [promptA', promptC], storageOf (Some (Json (JArray [promptA, promptC])))) \<and>
   title promptA' = ''Fix the bug'' \<and> title promptA = ''Fix bug'' \<and>
   comment_count promptA' = Some 5 \<and> comment_count promptA = Some 3"
proof -
  let ?xs = "[promptA, promptB, promptC]"
  let ?st = "storageOf (Some (Json (JArray ?xs)))"
  have fetched: "snd (fetchPromptsBatch ''https://api.example'' (sampleServer [promptA', promptC])
      (Some [''A'', ''B'', ''C''])) = Inr (JArray [promptA', promptC])"
    by (simp add: sampleServer_batch)
  have removed: "fst (removePromptFromVault ?st ''B'') = storageOf (Some (Json (JArray [promptA, promptC])))"
    by (simp add: removePromptFromVault_def JSON_stringify_def setItem_ok storageOf_def
        getVaultPrompts_cases unlimitedQuota_def promptA_def promptB_def promptC_def)
  have "syncEffect ''https://api.example'' (sampleServer [promptA', promptC]) (samplePage ?xs, ?st)
     = Inr (samplePage [promptA', promptC], storageOf (Some (Json (JArray [promptA, promptC]))))"
    by (simp add: syncEffect_runs syncWithServer_def fetched newMap_def removed samplePage_def)
  then show ?thesis
    by (simp add: promptA_def promptA'_def)
qed

text \<open>
  Claim C3. When the batch fetch is rejected, or resolves to something that is not a list,
  the synchronisation ends normally with the page's list and the storage exactly as before;
  only \<open>batchError\<close> is set (to the message of the error) and \<open>isBatchLoading\<close> is reset.
\<close>

theorem sync_failure_keeps_local:
  "(\<not> isInitialLoading page \<and> getVaultPrompts st = JArray xs \<and> xs \<noteq> [] \<and>
    snd (fetchPromptsBatch API_BASE_URL fetch (Some (map prompt_id xs))) = Inl error \<longrightarrow>
    syncEffect API_BASE_URL fetch (page, st) =
      Inr (page\<lparr>batchError := Some (errorMessageOr error ''Failed to sync vault with server.''),
                isBatchLoading := False\<rparr>,
           st)) \<and>
   (\<not> isInitialLoading page \<and> getVaultPrompts st = JArray xs \<and> xs \<noteq> [] \<and>
    (\<forall>fresh. snd (fetchPromptsBatch API_BASE_URL fetch (Some (map prompt_id xs)))
       \<noteq> Inr (JArray fresh)) \<longrightarrow>
    (\<exists>message. syncEffect API_BASE_URL fetch (page, st) =
      Inr (page\<lparr>batchError := Some message, isBatchLoading := False\<rparr>, st)))"
  by (auto simp: syncEffect_runs syncWithServer_def split: sum.splits js_value.splits)

theorem sync_failure_keeps_local_witness:
  "syncEffect ''https://api.example'' offline
     (samplePage [promptA, promptB], storageOf (Some (Json (JArray [promptA, promptB])))) =
   Inr ((samplePage [promptA, promptB])\<lparr>batchError := Some ''Failed to fetch''\<rparr>,
        storageOf (Some (Json (JArray [promptA, promptB]))))"
proof -
  let ?xs = "[promptA, promptB]"
  let ?st = "storageOf (Some (Json (JArray ?xs)))"
  have h: "\<not> isInitialLoading (samplePage ?xs) \<and> getVaultPrompts ?st = JArray ?xs \<and> ?xs \<noteq> [] \<and>
      snd (fetchPromptsBatch ''https://api.example'' offline (Some (map prompt_id ?xs)))
        = Inl (Error ''Failed to fetch'')"
    by (simp add: offline_batch)
  from sync_failure_keeps_local [of "samplePage ?xs" ?st ?xs "''https://api.example''" offline
      "Error ''Failed to fetch''"] h
  show ?thesis
    by (simp add: errorMessageOr_def samplePage_def)
qed

text \<open>
  Claim C4, as amended. For the comment handlers of the vault page and a prompt id:
  if every entry of the page's list with that id has a count that is absent or lies between
  0 and \<open>2 ^ 53 - 1\<close>, then adding and then deleting a comment gives the list back with
  the count of those entries as before (an absent count, read as 0, is now 0); after a
  deletion every entry with that id has a non-negative count, and an entry whose count was
  0 or absent has count 0. Each handler hands the page's first entry of that id, with its
  new count, to \<open>savePromptToVault\<close>: on an accessible storage holding a list, the stored
  list after the handler is that list with the entry upserted if the storage accepts that
  text, and the storage is unchanged if it refuses it. After an addition followed by a
  deletion, both writes accepted, the stored list is the former list with the page's entry
  and the page's original count upserted. When the stored ids are pairwise distinct, the
  upserted entry is the only stored entry with that id.
\<close>

theorem comment_delta_round_trip:
  "((\<forall>p\<in>set (vaultPrompts page).
       prompt_id p = k \<longrightarrow> 0 \<le> commentCountOr0 p \<and> commentCountOr0 p < 2 ^ 53) \<longrightarrow>
      vaultPrompts (fst (handleCommentDeleted k (handleCommentAdded k (page, st)))) =
        map (\<lambda>p. if prompt_id p = k then p\<lparr>comment_count := Some (commentCountOr0 p)\<rparr> else p)
          (vaultPrompts page) \<and>
      map commentCountOr0
        (vaultPrompts (fst (handleCommentDeleted k (handleCommentAdded k (page, st))))) =
        map commentCountOr0 (vaultPrompts page)) \<and>
   (\<forall>x\<in>set (vaultPrompts (fst (handleCommentDeleted k (page, st)))).
      prompt_id x = k \<longrightarrow> (\<exists>n. comment_count x = Some n \<and> 0 \<le> n)) \<and>
   (p \<in> set (vaultPrompts page) \<and> prompt_id p = k \<and> commentCountOr0 p = 0 \<longrightarrow>
      p\<lparr>comment_count := Some 0\<rparr> \<in> set (vaultPrompts (fst (handleCommentDeleted k (page, st))))) \<and>
   (find (\<lambda>p. prompt_id p = k) (vaultPrompts page) = Some q \<and>
    getVaultPrompts st = JArray ys \<and> accessible st \<longrightarrow>
      (accepts st (Json (JArray (upsertedVault ys
           (q\<lparr>comment_count := Some (toDouble (commentCountOr0 q + 1))\<rparr>)))) \<longrightarrow>
         getVaultPrompts (snd (handleCommentAdded k (page, st))) =
           JArray (upsertedVault ys
             (q\<lparr>comment_count := Some (toDouble (commentCountOr0 q + 1))\<rparr>))) \<and>
      (\<not> accepts st (Json (JArray (upsertedVault ys
           (q\<lparr>comment_count := Some (toDouble (commentCountOr0 q + 1))\<rparr>)))) \<longrightarrow>
         snd (handleCommentAdded k (page, st)) = st) \<and>
      (accepts st (Json (JArray (upsertedVault ys
           (q\<lparr>comment_count := Some (max 0 (toDouble (commentCountOr0 q - 1)))\<rparr>)))) \<longrightarrow>
         getVaultPrompts (snd (handleCommentDeleted k (page, st))) =
           JArray (upsertedVault ys
             (q\<lparr>comment_count := Some (max 0 (toDouble (commentCountOr0 q - 1)))\<rparr>))) \<and>
      (\<not> accepts st (Json (JArray (upsertedVault ys
           (q\<lparr>comment_count := Some (max 0 (toDouble (commentCountOr0 q - 1)))\<rparr>)))) \<longrightarrow>
         snd (handleCommentDeleted k (page, st)) = st) \<and>
      (0 \<le> commentCountOr0 q \<and> commentCountOr0 q < 2 ^ 53 \<and>
       accepts st (Json (JArray (upsertedVault ys
           (q\<lparr>comment_count := Some (toDouble (commentCountOr0 q + 1))\<rparr>)))) \<and>
       accepts st (Json (JArray (upsertedVault ys
           (q\<lparr>comment_count := Some (commentCountOr0 q)\<rparr>)))) \<longrightarrow>
         getVaultPrompts (snd (handleCommentDeleted k (handleCommentAdded k (page, st)))) =
           JArray (upsertedVault ys (q\<lparr>comment_count := Some (commentCountOr0 q)\<rparr>))) \<and>
      (distinct (map prompt_id ys) \<longrightarrow>
         (\<forall>n. filter (\<lambda>p. prompt_id p = k) (upsertedVault ys (q\<lparr>comment_count := Some n\<rparr>))
                = [q\<lparr>comment_count := Some n\<rparr>])))"
proof (intro conjI impI ballI allI)
  assume h: "\<forall>p\<in>set (vaultPrompts page).
       prompt_id p = k \<longrightarrow> 0 \<le> commentCountOr0 p \<and> commentCountOr0 p < 2 ^ 53"
  show "vaultPrompts (fst (handleCommentDeleted k (handleCommentAdded k (page, st)))) =
        map (\<lambda>p. if prompt_id p = k then p\<lparr>comment_count := Some (commentCountOr0 p)\<rparr> else p)
          (vaultPrompts page)"
    using h by (rule round_trip_page)
  show "map commentCountOr0
        (vaultPrompts (fst (handleCommentDeleted k (handleCommentAdded k (page, st))))) =
        map commentCountOr0 (vaultPrompts page)"
    by (simp only: round_trip_page [OF h] counts_normalised)
next
  fix x assume "x \<in> set (vaultPrompts (fst (handleCommentDeleted k (page, st))))"
    and "prompt_id x = k"
  then show "\<exists>n. comment_count x = Some n \<and> 0 \<le> n"
    by (rule deleted_nonneg)
next
  assume "p \<in> set (vaultPrompts page) \<and> prompt_id p = k \<and> commentCountOr0 p = 0"
  then show "p\<lparr>comment_count := Some 0\<rparr> \<in> set (vaultPrompts (fst (handleCommentDeleted k (page, st))))"
    using deleted_at_zero [of p page k st] by blast
next
  assume w: "find (\<lambda>p. prompt_id p = k) (vaultPrompts page) = Some q \<and>
    getVaultPrompts st = JArray ys \<and> accessible st"
  then have q: "find (\<lambda>p. prompt_id p = k) (vaultPrompts page) = Some q"
    and cur: "getVaultPrompts st = JArray ys" and acc: "accessible st"
    by simp_all
  {
    assume a: "accepts st (Json (JArray (upsertedVault ys
           (q\<lparr>comment_count := Some (toDouble (commentCountOr0 q + 1))\<rparr>))))"
    show "getVaultPrompts (snd (handleCommentAdded k (page, st))) =
           JArray (upsertedVault ys
             (q\<lparr>comment_count := Some (toDouble (commentCountOr0 q + 1))\<rparr>))"
      using acc by (simp add: added_written [OF q cur acc a] getVaultPrompts_cases)
  }
  {
    assume "\<not> accepts st (Json (JArray (upsertedVault ys
           (q\<lparr>comment_count := Some (toDouble (commentCountOr0 q + 1))\<rparr>))))"
    with q cur show "snd (handleCommentAdded k (page, st)) = st"
      by (rule added_refused)
  }
  {
    assume a: "accepts st (Json (JArray (upsertedVault ys
           (q\<lparr>comment_count := Some (max 0 (toDouble (commentCountOr0 q - 1)))\<rparr>))))"
    show "getVaultPrompts (snd (handleCommentDeleted k (page, st))) =
           JArray (upsertedVault ys
             (q\<lparr>comment_count := Some (max 0 (toDouble (commentCountOr0 q - 1)))\<rparr>))"
      using acc by (simp add: deleted_written [OF q cur acc a] getVaultPrompts_cases)
  }
  {
    assume "\<not> accepts st (Json (JArray (upsertedVault ys
           (q\<lparr>comment_count := Some (max 0 (toDouble (commentCountOr0 q - 1)))\<rparr>))))"
    with q cur show "snd (handleCommentDeleted k (page, st)) = st"
      by (rule deleted_refused)
  }
  {
    assume "0 \<le> commentCountOr0 q \<and> commentCountOr0 q < 2 ^ 53 \<and>
       accepts st (Json (JArray (upsertedVault ys
           (q\<lparr>comment_count := Some (toDouble (commentCountOr0 q + 1))\<rparr>)))) \<and>
       accepts st (Json (JArray (upsertedVault ys
           (q\<lparr>comment_count := Some (commentCountOr0 q)\<rparr>))))"
    then show "getVaultPrompts (snd (handleCommentDeleted k (handleCommentAdded k (page, st)))) =
           JArray (upsertedVault ys (q\<lparr>comment_count := Some (commentCountOr0 q)\<rparr>))"
      using round_trip_written [OF q cur acc] by blast
  }
  {
    fix n assume "distinct (map prompt_id ys)"
    then show "filter (\<lambda>p. prompt_id p = k) (upsertedVault ys (q\<lparr>comment_count := Some n\<rparr>))
                = [q\<lparr>comment_count := Some n\<rparr>]"
      using found_id [OF q] by (rule upserted_entry)
  }
qed

theorem comment_delta_round_trip_witness:
  "vaultPrompts (fst (handleCommentDeleted ''A'' (handleCommentAdded ''A''
      (samplePage [promptA, promptB],
       (storageOf (Some (Json (JArray [promptA, promptB]))))\<lparr>accepts := entryQuota 2\<rparr>))))
     = [promptA, promptB] \<and>
   getVaultPrompts (snd (handleCommentAdded ''A''
      (samplePage [promptA, promptB],
       (storageOf (Some (Json (JArray [promptA, promptB]))))\<lparr>accepts := entryQuota 2\<rparr>)))
     = JArray [promptA\<lparr>comment_count := Some 4\<rparr>, promptB] \<and>
   getVaultPrompts (snd (handleCommentDeleted ''A'' (handleCommentAdded ''A''
      (samplePage [promptA, promptB],
       (storageOf (Some (Json (JArray [promptA, promptB]))))\<lparr>accepts := entryQuota 2\<rparr>))))
     = JArray [promptA, promptB]"
proof -
  let ?page = "samplePage [promptA, promptB]"
  let ?st = "(storageOf (Some (Json (JArray [promptA, promptB]))))\<lparr>accepts := entryQuota 2\<rparr>"
  have counts: "commentCountOr0 promptA = 3"
    by (simp add: commentCountOr0_def promptA_def)
  have same: "promptA\<lparr>comment_count := Some 3\<rparr> = promptA"
    by (simp add: promptA_def)
  have four: "toDouble 4 = 4"
    by (simp add: toDouble_exact)
  have u: "upsertedVault [promptA, promptB] (promptA\<lparr>comment_count := Some n\<rparr>)
      = [promptA\<lparr>comment_count := Some n\<rparr>, promptB]" for n
    by (simp add: upsertedVault_def)
  have h1: "\<forall>p\<in>set (vaultPrompts ?page).
      prompt_id p = ''A'' \<longrightarrow> 0 \<le> commentCountOr0 p \<and> commentCountOr0 p < 2 ^ 53"
    by (simp add: counts)
  have h2: "find (\<lambda>p. prompt_id p = ''A'') (vaultPrompts ?page) = Some promptA \<and>
      getVaultPrompts ?st = JArray [promptA, promptB] \<and> accessible ?st"
    by (simp add: getVaultPrompts_cases)
  have h3: "accepts ?st (Json (JArray (upsertedVault [promptA, promptB]
        (promptA\<lparr>comment_count := Some (toDouble (commentCountOr0 promptA + 1))\<rparr>))))"
    by (simp add: u entryQuota_def)
  have h4: "0 \<le> commentCountOr0 promptA \<and> commentCountOr0 promptA < 2 ^ 53 \<and>
      accepts ?st (Json (JArray (upsertedVault [promptA, promptB]
        (promptA\<lparr>comment_count := Some (toDouble (commentCountOr0 promptA + 1))\<rparr>)))) \<and>
      accepts ?st (Json (JArray (upsertedVault [promptA, promptB]
        (promptA\<lparr>comment_count := Some (commentCountOr0 promptA)\<rparr>))))"
    by (simp add: u entryQuota_def counts)
  have u0: "upsertedVault [promptA, promptB] promptA = [promptA, promptB]"
    using u [of 3] by (simp only: same)
  from comment_delta_round_trip [of ?page "''A''" ?st promptA promptA "[promptA, promptB]"]
    h1 h2 h3 h4
  show ?thesis
    by (simp add: counts same four u u0)
qed

text \<open>
  The claim as first stated speaks of the stored count of every vaulted prompt. It fails
  when the stored entry and the page's entry differ, as they do after a synchronisation
  that brought a newer count: the stored count is 3, the server's is 5; after one comment
  added and one deleted the stored count is 5. It also fails at the count \<open>2 ^ 53\<close>,
  where the addition is absorbed and the subtraction then gives \<open>2 ^ 53 - 1\<close>.
\<close>

theorem comment_delta_persisted_counterexample:
  "getVaultPrompts (storageOf (Some (Json (JArray [promptA])))) = JArray [promptA] \<and>
   comment_count promptA = Some 3 \<and>
   syncEffect ''https://api.example'' (sampleServer [promptA'])
     (samplePage [promptA], storageOf (Some (Json (JArray [promptA]))))
     = Inr (samplePage [promptA'], storageOf (Some (Json (JArray [promptA])))) \<and>
   getVaultPrompts (snd (handleCommentDeleted ''A'' (handleCommentAdded ''A''
     (samplePage [promptA'], storageOf (Some (Json (JArray [promptA])))))))
     = JArray [promptA'] \<and>
   comment_count promptA' = Some 5 \<and>
   vaultPrompts (fst (handleCommentDeleted ''A'' (handleCommentAdded ''A''
     (samplePage [promptA\<lparr>comment_count := Some 9007199254740992\<rparr>],
      storageOf (Some (Json (JArray [promptA])))))))
     = [promptA\<lparr>comment_count := Some 9007199254740991\<rparr>]"
proof -
  have fetched: "snd (fetchPromptsBatch ''https://api.example'' (sampleServer [promptA']) (Some [''A'']))
      = Inr (JArray [promptA'])"
    by (simp add: sampleServer_batch)
  have sync: "syncEffect ''https://api.example'' (sampleServer [promptA'])
     (samplePage [promptA], storageOf (Some (Json (JArray [promptA]))))
     = Inr (samplePage [promptA'], storageOf (Some (Json (JArray [promptA]))))"
    by (simp add: syncEffect_runs syncWithServer_def fetched newMap_def samplePage_def)
  let ?st = "storageOf (Some (Json (JArray [promptA])))"
  have c5: "commentCountOr0 promptA' = 5"
    by (simp add: commentCountOr0_def promptA'_def)
  have six: "toDouble 6 = 6" and five: "toDouble 5 = 5"
    by (simp_all add: toDouble_exact)
  have s1: "savePromptToVault ?st (promptA'\<lparr>comment_count := Some 6\<rparr>) =
      (storageOf (Some (Json (JArray [promptA'\<lparr>comment_count := Some 6\<rparr>]))), True)"
    by (simp add: savePromptToVault_def JSON_stringify_def setItem_ok storageOf_def
        getVaultPrompts_cases unlimitedQuota_def promptA_def promptA'_def)
  have s2: "savePromptToVault (storageOf (Some (Json (JArray [promptA'\<lparr>comment_count := Some 6\<rparr>]))))
        promptA' =
      (storageOf (Some (Json (JArray [promptA']))), True)"
    by (simp add: savePromptToVault_def JSON_stringify_def setItem_ok storageOf_def
        getVaultPrompts_cases unlimitedQuota_def promptA_def promptA'_def)
  have same: "promptA'\<lparr>comment_count := Some 5\<rparr> = promptA'"
    by (simp add: promptA'_def)
  have added: "handleCommentAdded ''A'' (samplePage [promptA'], ?st) =
      (samplePage [promptA'\<lparr>comment_count := Some 6\<rparr>],
       storageOf (Some (Json (JArray [promptA'\<lparr>comment_count := Some 6\<rparr>]))))"
    by (simp add: handleCommentAdded_def c5 six s1 samplePage_def)
  have c6: "commentCountOr0 (promptA'\<lparr>comment_count := Some 6\<rparr>) = 6"
    by (simp add: commentCountOr0_def)
  have deleted: "snd (handleCommentDeleted ''A''
      (samplePage [promptA'\<lparr>comment_count := Some 6\<rparr>],
       storageOf (Some (Json (JArray [promptA'\<lparr>comment_count := Some 6\<rparr>]))))) =
      storageOf (Some (Json (JArray [promptA'])))"
    by (simp add: deleted_storage c6 five same s2)
  let ?big = "promptA\<lparr>comment_count := Some 9007199254740992\<rparr>"
  have up: "toDouble (9007199254740992 + 1) = 9007199254740992"
    using toDouble_absorbed by simp
  have down: "toDouble (9007199254740992 - 1) = 9007199254740991"
    by (simp add: toDouble_exact)
  have big: "vaultPrompts (fst (handleCommentDeleted ''A'' (handleCommentAdded ''A''
      (samplePage [?big], ?st)))) = [promptA\<lparr>comment_count := Some 9007199254740991\<rparr>]"
  proof -
    obtain page1 st1 where ps1: "handleCommentAdded ''A'' (samplePage [?big], ?st) = (page1, st1)"
      by (cases "handleCommentAdded ''A'' (samplePage [?big], ?st)")
    have "vaultPrompts page1 = [?big]"
      using added_page [of "''A''" "samplePage [?big]" ?st] ps1 up
      by (simp add: commentCountOr0_def)
    then show ?thesis
      using down by (simp add: ps1 deleted_page commentCountOr0_def)
  qed
  show ?thesis
    by (simp add: sync added deleted big) (simp add: promptA_def promptA'_def)
qed




end
